theory Spec2Isabelle
  imports Complex_Main
begin

section \<open>Decimal arithmetic of liquidity\_positions.py\<close>

text \<open>
  The module sets \<^verbatim>\<open>getcontext().prec = 50\<close> and leaves the rounding mode at the
  default (round half even). A finite \<^verbatim>\<open>Decimal\<close> is modelled by the number it
  denotes, a \<^typ>\<open>real\<close>; every arithmetic operation computes the exact result and
  rounds it to 50 significant digits, as the decimal module does. Constructing a
  \<^verbatim>\<open>Decimal\<close> from an int, a float or a string is exact. Signed zeros, the exponent
  limits of the context and the number of trailing zeros are not modelled.
\<close>

datatype py_error =
    KeyError | UnboundLocalError | DivisionByZero | InvalidOperation | ValueError

type_synonym 'a res = "py_error + 'a"

definition rbind :: "'a res \<Rightarrow> ('a \<Rightarrow> 'b res) \<Rightarrow> 'b res" where
  "rbind m f = (case m of Inl e \<Rightarrow> Inl e | Inr v \<Rightarrow> f v)"

text \<open>Number of decimal digits of a natural number (one digit for 0).\<close>

fun digs :: "nat \<Rightarrow> nat" where
  "digs n = (if n < 10 then 1 else Suc (digs (n div 10)))"

declare digs.simps [simp del]

text \<open>The adjusted exponent of a non-zero number: the \<open>a\<close> with \<open>10^a \<le> |x| < 10^(a+1)\<close>.\<close>

definition adjusted :: "real \<Rightarrow> int" where
  "adjusted x = (if 1 \<le> \<bar>x\<bar> then int (digs (nat \<lfloor>\<bar>x\<bar>\<rfloor>)) - 1
                 else - int (digs (nat (\<lceil>1 / \<bar>x\<bar>\<rceil> - 1))))"

definition round_half_even :: "real \<Rightarrow> int" where
  "round_half_even y = (let f = \<lfloor>y\<rfloor>; r = y - of_int f in
      if r < 1/2 then f else if 1/2 < r then f + 1 else if even f then f else f + 1)"

text \<open>Rounding to the context precision of 50 significant digits.\<close>

definition rnd :: "real \<Rightarrow> real" where
  "rnd x = (if x = 0 then 0 else
     of_int (round_half_even (x / 10 powi (adjusted x - 49))) * 10 powi (adjusted x - 49))"

definition dadd :: "real \<Rightarrow> real \<Rightarrow> real" where
  "dadd x y = rnd (x + y)"

definition dsub :: "real \<Rightarrow> real \<Rightarrow> real" where
  "dsub x y = rnd (x - y)"

definition dmul :: "real \<Rightarrow> real \<Rightarrow> real" where
  "dmul x y = rnd (x * y)"

text \<open>Division by a divisor that the program has checked, or that is a non-zero literal.\<close>

definition ddiv :: "real \<Rightarrow> real \<Rightarrow> real" where
  "ddiv x y = rnd (x / y)"

text \<open>Division where the divisor may be zero: the decimal module raises.\<close>

definition ddiv_chk :: "real \<Rightarrow> real \<Rightarrow> real res" where
  "ddiv_chk x y =
     (if y = 0 then Inl (if x = 0 then InvalidOperation else DivisionByZero)
      else Inr (ddiv x y))"

definition dabs :: "real \<Rightarrow> real" where
  "dabs x = rnd \<bar>x\<bar>"

text \<open>\<^verbatim>\<open>Decimal.sqrt()\<close>: correctly rounded; a negative operand raises.\<close>

definition dsqrt :: "real \<Rightarrow> real res" where
  "dsqrt x = (if x < 0 then Inl InvalidOperation else Inr (rnd (sqrt x)))"

text \<open>
  \<^verbatim>\<open>x ** y\<close> for a positive base (the program only uses the bases
  \<^verbatim>\<open>Decimal(1.0001)\<close> and \<^verbatim>\<open>Decimal(10)\<close>): the power rounded to the context
  precision. The library documents its result as correctly rounded in almost all
  cases and never more than one unit in the last place away.
\<close>

definition dpow :: "real \<Rightarrow> real \<Rightarrow> real" where
  "dpow x y = rnd (x powr y)"

text \<open>\<^verbatim>\<open>int(d)\<close> truncates towards zero.\<close>

definition to_int :: "real \<Rightarrow> int" where
  "to_int x = (if 0 \<le> x then \<lfloor>x\<rfloor> else \<lceil>x\<rceil>)"

text \<open>
  \<^verbatim>\<open>Decimal(1.0001)\<close> converts the binary double nearest to 1.0001, exactly:
  \<open>4504049987333233 / 2^52\<close>. Likewise the float literal \<^verbatim>\<open>0.0001\<close> that
  \<^verbatim>\<open>format_amount\<close> compares a Decimal with.
\<close>

definition float_1_0001 :: real where
  "float_1_0001 = 4504049987333233 / 4503599627370496"

definition float_0_0001 :: real where
  "float_0_0001 = 7378697629483821 / 73786976294838206464"

section \<open>Strings and number formatting\<close>

definition digit_char :: "nat \<Rightarrow> char" where
  "digit_char d = ''0123456789'' ! d"

fun str_nat :: "nat \<Rightarrow> string" where
  "str_nat n = (if n < 10 then [digit_char n] else str_nat (n div 10) @ [digit_char (n mod 10)])"

declare str_nat.simps [simp del]

definition str_int :: "int \<Rightarrow> string" where
  "str_int i = (if i < 0 then CHR ''-'' # str_nat (nat (- i)) else str_nat (nat i))"

fun join_with :: "string \<Rightarrow> string list \<Rightarrow> string" where
  "join_with sep [] = []"
| "join_with sep [x] = x"
| "join_with sep (x # y # ys) = x @ sep @ join_with sep (y # ys)"

text \<open>Thousands separators of the \<^verbatim>\<open>,\<close> format option, on a string of digits.\<close>

fun group3 :: "string \<Rightarrow> string" where
  "group3 ds = (if length ds \<le> 3 then ds
                else group3 (take (length ds - 3) ds) @ '','' @ drop (length ds - 3) ds)"

declare group3.simps [simp del]

definition pad_zeros :: "nat \<Rightarrow> string \<Rightarrow> string" where
  "pad_zeros n s = replicate (n - length s) (CHR ''0'') @ s"

text \<open>
  \<^verbatim>\<open>format(d, ',.2f')\<close> and relatives: \<open>fmt_fixed commas places d\<close> rounds half even
  to \<open>places\<close> decimal places.
\<close>

definition fmt_fixed :: "bool \<Rightarrow> nat \<Rightarrow> real \<Rightarrow> string" where
  "fmt_fixed commas places x =
     (let n = nat (round_half_even (\<bar>x\<bar> * 10 ^ places));
          ip = str_nat (n div 10 ^ places);
          fp = pad_zeros places (str_nat (n mod 10 ^ places))
      in (if x < 0 then ''-'' else '''') @ (if commas then group3 ip else ip)
         @ (if places = 0 then '''' else ''.'' @ fp))"

text \<open>\<^verbatim>\<open>format(d, '.2%')\<close>\<close>

definition fmt_percent :: "real \<Rightarrow> string" where
  "fmt_percent x = fmt_fixed False 2 (x * 100) @ ''%''"

text \<open>The value that \<^verbatim>\<open>Decimal(s.replace(",", ""))\<close> reads back from \<^verbatim>\<open>f"{d:,.2f}"\<close>.\<close>

definition round2 :: "real \<Rightarrow> real" where
  "round2 x = (if x < 0 then - of_int (round_half_even (\<bar>x\<bar> * 100)) / 100
               else of_int (round_half_even (\<bar>x\<bar> * 100)) / 100)"

definition format_amount :: "int \<Rightarrow> nat \<Rightarrow> string" where
  "format_amount amount decimals =
     (if amount = 0 then ''0''
      else let adj = ddiv (of_int amount) (10 ^ decimals) in
        if adj = 0 then ''0''
        else if adj < float_0_0001 then fmt_fixed False 8 adj
        else if adj < 1 then fmt_fixed False 4 adj
        else fmt_fixed True 2 adj)"

section \<open>Pure helpers of the module\<close>

subsection \<open>tick\_to\_price, calculate\_token\_amounts\<close>

definition tick_to_price :: "int \<Rightarrow> nat \<Rightarrow> nat \<Rightarrow> real" where
  "tick_to_price tick decimals0 decimals1 =
     (let price_ratio = dpow float_1_0001 (of_int tick);
          price_adjustment = dpow 10 (of_int (int decimals0 - int decimals1))
      in dmul price_ratio price_adjustment)"

definition calculate_token_amounts :: "nat \<Rightarrow> real \<Rightarrow> int \<Rightarrow> int \<Rightarrow> (int \<times> int) res" where
  "calculate_token_amounts liq current_sqrt_price lower_tick upper_tick =
     (let liquidity = of_nat liq;
          sqrt_price_lower = dpow float_1_0001 (ddiv (of_int lower_tick) 2);
          sqrt_price_upper = dpow float_1_0001 (ddiv (of_int upper_tick) 2)
      in if current_sqrt_price \<le> sqrt_price_lower then
           rbind (ddiv_chk (dsub sqrt_price_upper sqrt_price_lower)
                           (dmul sqrt_price_lower sqrt_price_upper))
             (\<lambda>q. Inr (to_int (dmul liquidity q), 0))
         else if current_sqrt_price \<ge> sqrt_price_upper then
           Inr (0, to_int (dmul liquidity (dsub sqrt_price_upper sqrt_price_lower)))
         else
           rbind (ddiv_chk (dsub sqrt_price_upper current_sqrt_price)
                           (dmul current_sqrt_price sqrt_price_upper))
             (\<lambda>q. Inr (to_int (dmul liquidity q),
                        to_int (dmul liquidity (dsub current_sqrt_price sqrt_price_lower)))))"

subsection \<open>calculate\_il\_percentage\<close>

text \<open>The three-case amounts at a price \<open>p\<close> with square root \<open>sp\<close>, for \<open>L = 1\<close>.\<close>

definition il_amounts :: "real \<Rightarrow> real \<Rightarrow> real \<Rightarrow> real \<Rightarrow> real \<Rightarrow> real \<Rightarrow> (real \<times> real) res" where
  "il_amounts p sp p_lower p_upper sqrt_lower sqrt_upper =
     (if p \<le> p_lower then
        rbind (ddiv_chk (dmul 1 (dsub sqrt_upper sqrt_lower)) (dmul sqrt_lower sqrt_upper))
          (\<lambda>a0. Inr (a0, 0))
      else if p \<ge> p_upper then
        Inr (0, dmul 1 (dsub sqrt_upper sqrt_lower))
      else
        rbind (ddiv_chk (dmul 1 (dsub sqrt_upper sp)) (dmul sp sqrt_upper))
          (\<lambda>a0. Inr (a0, dmul 1 (dsub sp sqrt_lower))))"

definition calculate_il_percentage :: "real \<Rightarrow> real \<Rightarrow> real \<Rightarrow> real \<Rightarrow> real res" where
  "calculate_il_percentage p_entry p_target p_lower p_upper =
     (if p_target = p_entry \<or> p_lower \<ge> p_upper then Inr 0
      else
        rbind (dsqrt p_entry) (\<lambda>sqrt_entry.
        rbind (dsqrt p_target) (\<lambda>sqrt_target.
        rbind (dsqrt p_lower) (\<lambda>sqrt_lower.
        rbind (dsqrt p_upper) (\<lambda>sqrt_upper.
        rbind (il_amounts p_entry sqrt_entry p_lower p_upper sqrt_lower sqrt_upper)
          (\<lambda>(amount0_entry, amount1_entry).
        rbind (il_amounts p_target sqrt_target p_lower p_upper sqrt_lower sqrt_upper)
          (\<lambda>(amount0_target, amount1_target).
           let hodl_value = dadd (dmul amount0_entry p_target) amount1_entry;
               lp_value = dadd (dmul amount0_target p_target) amount1_target
           in if hodl_value = 0 then Inr 0
              else Inr (dabs (dsub (ddiv lp_value hodl_value) 1)))))))))"

subsection \<open>format\_timedelta\<close>

text \<open>
  The argument of \<^verbatim>\<open>format_timedelta\<close>: \<^verbatim>\<open>None\<close>, an object that is not a
  \<^verbatim>\<open>Decimal\<close>, a \<^verbatim>\<open>Decimal\<close> NaN or infinity, or a finite \<^verbatim>\<open>Decimal\<close>.
\<close>

datatype days_arg = PyNone | NotDecimal | NonFinite | Dec real

text \<open>The loop that formats the non-zero components and stops at the third.\<close>

fun display_loop :: "string list \<Rightarrow> (int \<times> string) list \<Rightarrow> string list" where
  "display_loop display_parts [] = display_parts"
| "display_loop display_parts ((v, unit) # rest) =
     (let display_parts' = display_parts @ [str_int v @ unit]
      in if length display_parts' = 3 then display_parts'
         else display_loop display_parts' rest)"

definition time_components :: "int \<Rightarrow> (int \<times> string) list" where
  "time_components total_minutes =
     (let years = total_minutes div (365 * 24 * 60);
          tm1 = total_minutes mod (365 * 24 * 60);
          months = tm1 div (30 * 24 * 60);
          tm2 = tm1 mod (30 * 24 * 60);
          weeks = tm2 div (7 * 24 * 60);
          tm3 = tm2 mod (7 * 24 * 60);
          days_part = tm3 div (24 * 60);
          tm4 = tm3 mod (24 * 60);
          hours_part = tm4 div 60;
          minutes_part = tm4 mod 60
      in [(years, ''y''), (months, ''mo''), (weeks, ''w''),
          (days_part, ''d''), (hours_part, ''h''), (minutes_part, ''m'')])"

definition total_minutes_of :: "real \<Rightarrow> int" where
  "total_minutes_of days = to_int (dmul (dmul days 24) 60)"

definition format_timedelta :: "days_arg \<Rightarrow> string" where
  "format_timedelta arg =
     (case arg of
        PyNone \<Rightarrow> ''N/A''
      | NotDecimal \<Rightarrow> ''N/A''
      | NonFinite \<Rightarrow> ''N/A''
      | Dec days \<Rightarrow>
          if days < 0 then ''Met''
          else let total_minutes = total_minutes_of days in
            if total_minutes = 0 then ''<1m''
            else let time_components_ordered =
                       filter (\<lambda>(v, unit). v > 0) (time_components total_minutes);
                     display_parts = display_loop [] time_components_ordered
                 in if display_parts = [] then ''N/A'' else join_with '' '' display_parts)"

section \<open>find\_and\_display\_positions\<close>

subsection \<open>Data read from the chain, the store and the clock\<close>

record token_info =
  symbol :: string
  decimals :: nat

text \<open>The tuple returned by \<^verbatim>\<open>positions(token_id)\<close>; the fee fields are never read.\<close>

record pos_data =
  token0 :: string
  token1 :: string
  tickSpacing :: int
  tickLower :: int
  tickUpper :: int
  liquidity :: nat

record pool_info =
  pool_address :: string
  sqrt_price :: real
  current_tick :: int

record creation_info =
  block_number :: nat
  timestamp :: int

text \<open>
  The \<^verbatim>\<open>'date'\<close> string of a baseline: a date in the fixed format
  (\<open>Stamp\<close>), such a date followed by \<^verbatim>\<open>" (Current)"\<close> (\<open>Current\<close>), or a string
  without that marker that \<^verbatim>\<open>strptime\<close> rejects (\<open>Unparsable\<close>).
\<close>

datatype date_field = Stamp int | Current int | Unparsable

text \<open>
  A baseline snapshot (\<^verbatim>\<open>initial_data_cache[token_id_str]\<close>). \<open>b_price\<close> is
  \<open>None\<close> when the stored string is \<^verbatim>\<open>'N/A'\<close> or is not a decimal number.
\<close>

record baseline =
  b_date :: date_field
  b_block :: "nat option"
  b_amount0 :: int
  b_amount1 :: int
  b_price :: "real option"

text \<open>
  Everything the function reads from outside. A call that the program wraps in
  \<^verbatim>\<open>try\<close> and that returns \<^verbatim>\<open>None\<close> on failure is an \<open>option\<close>. The reads made
  for one position are keyed by its token id.
\<close>

record chain =
  connected :: bool
  stored :: "nat \<rightharpoonup> baseline"
  wbtc_price :: "real option"
  shadow_price :: "real option"
  xshadow_price :: "real option"
  balance_of :: "nat option"
  position_at :: "nat \<Rightarrow> (nat \<times> pos_data) option"
  token_of :: "string \<Rightarrow> token_info"
  pool_now :: "nat \<Rightarrow> pool_info option"
  creation_of :: "nat \<Rightarrow> creation_info option"
  pool_then :: "nat \<Rightarrow> pool_info option"
  emissions_of :: "nat \<Rightarrow> (string \<times> nat) list"
  clock :: "nat \<Rightarrow> int"
  elapsed_seconds :: "nat \<Rightarrow> real"

subsection \<open>The price cache built before the loop\<close>

definition truthy :: "real option \<Rightarrow> bool" where
  "truthy p = (case p of None \<Rightarrow> False | Some v \<Rightarrow> v \<noteq> 0)"

definition build_price_cache :: "chain \<Rightarrow> (string \<rightharpoonup> real)" where
  "build_price_cache ch =
     (\<lambda>s. if s = ''USDC'' then Some 1
          else if s = ''WBTC'' then (if truthy (wbtc_price ch) then wbtc_price ch else None)
          else if s = ''SHADOW'' then (if truthy (shadow_price ch) then shadow_price ch else None)
          else if s = ''xSHADOW'' then (if truthy (xshadow_price ch) then xshadow_price ch else None)
          else None)"

subsection \<open>Enumerating the wallet's positions\<close>

text \<open>
  \<^verbatim>\<open>for i in range(balance - 1, -1, -1)\<close>: the first argument counts the indices
  still to visit, so \<open>Suc i\<close> visits index \<open>i\<close>. A read that raises is skipped and
  leaves \<open>consecutive_closed\<close> as it is.
\<close>

fun scan_positions ::
  "(nat \<Rightarrow> (nat \<times> pos_data) option) \<Rightarrow> nat \<Rightarrow> nat \<Rightarrow> (nat \<times> pos_data) list
     \<Rightarrow> (nat \<times> pos_data) list" where
  "scan_positions rd 0 consecutive_closed active_positions = active_positions"
| "scan_positions rd (Suc i) consecutive_closed active_positions =
     (case rd i of
        None \<Rightarrow> scan_positions rd i consecutive_closed active_positions
      | Some (tid, pos) \<Rightarrow>
          if liquidity pos > 0 then scan_positions rd i 0 (active_positions @ [(tid, pos)])
          else if consecutive_closed + 1 \<ge> 5 then active_positions
          else scan_positions rd i (consecutive_closed + 1) active_positions)"

definition enumerate_active ::
  "(nat \<Rightarrow> (nat \<times> pos_data) option) \<Rightarrow> nat \<Rightarrow> (nat \<times> pos_data) list" where
  "enumerate_active rd balance = rev (scan_positions rd balance 0 [])"

subsection \<open>Valuation\<close>

definition position_value ::
  "token_info \<Rightarrow> token_info \<Rightarrow> int \<Rightarrow> int \<Rightarrow> real option \<Rightarrow> real option \<Rightarrow> real" where
  "position_value token0_info token1_info amount0 amount1 price0 price1 =
     (let adj0 = ddiv (of_int amount0) (10 ^ decimals token0_info);
          adj1 = ddiv (of_int amount1) (10 ^ decimals token1_info);
          v1 = (if truthy price0 then dadd 0 (dmul adj0 (the price0)) else 0);
          v2 = (if truthy price1 then dadd v1 (dmul adj1 (the price1)) else v1)
      in if v2 = 0 then
           (if symbol token1_info = ''USDC'' \<and> truthy price0 then
              dadd (dmul adj0 (the price0)) adj1
            else if symbol token0_info = ''USDC'' \<and> truthy price1 then
              dadd (dmul adj1 (the price1)) adj0
            else 0)
         else v2)"

definition initial_price_val_of :: "baseline \<Rightarrow> real" where
  "initial_price_val_of info = (case b_price info of None \<Rightarrow> 0 | Some p \<Rightarrow> p)"

definition initial_value ::
  "token_info \<Rightarrow> token_info \<Rightarrow> baseline \<Rightarrow> real option \<Rightarrow> real option \<Rightarrow> real" where
  "initial_value token0_info token1_info info price0 price1 =
     (let initial_price_val = initial_price_val_of info in
      if initial_price_val > 0 then
        (let initial_amount0_adj = ddiv (of_int (b_amount0 info)) (10 ^ decimals token0_info);
             initial_amount1_adj = ddiv (of_int (b_amount1 info)) (10 ^ decimals token1_info)
         in if symbol token1_info = ''USDC'' then
              dadd (dmul initial_amount0_adj initial_price_val) initial_amount1_adj
            else if symbol token0_info = ''USDC'' then
              dadd (dmul initial_amount1_adj (ddiv 1 initial_price_val)) initial_amount0_adj
            else if truthy price0 \<and> truthy price1 then
              dadd (dmul initial_amount0_adj (the price0)) (dmul initial_amount1_adj (the price1))
            else 0)
      else 0)"

subsection \<open>Rewards\<close>

record reward_entry =
  rw_amount :: string
  rw_symbol :: string
  rw_usd_value :: string

text \<open>The nominal USD value of one reward: zero when no price is resolved.\<close>

definition reward_usd_value :: "token_info \<Rightarrow> real option \<Rightarrow> nat \<Rightarrow> real" where
  "reward_usd_value reward_token_info reward_price amount =
     (if truthy reward_price then
        dmul (ddiv (of_nat amount) (10 ^ decimals reward_token_info)) (the reward_price)
      else 0)"

text \<open>The value shown in the rewards list and the value added to the total.\<close>

definition reward_shown :: "token_info \<Rightarrow> real \<Rightarrow> real" where
  "reward_shown reward_token_info usd_value =
     (if symbol reward_token_info = ''xSHADOW'' then ddiv usd_value 2 else usd_value)"

definition reward_credit :: "token_info \<Rightarrow> real option \<Rightarrow> real \<Rightarrow> real \<Rightarrow> real" where
  "reward_credit reward_token_info reward_price usd_value total_rewards_usd =
     (if truthy reward_price then
        (if symbol reward_token_info = ''xSHADOW'' then dadd total_rewards_usd (ddiv usd_value 2)
         else dadd total_rewards_usd usd_value)
      else total_rewards_usd)"

fun rewards_loop ::
  "(string \<Rightarrow> token_info) \<Rightarrow> (string \<rightharpoonup> real) \<Rightarrow> (string \<times> nat) list
     \<Rightarrow> reward_entry list \<Rightarrow> real \<Rightarrow> reward_entry list \<times> real" where
  "rewards_loop tok price_cache [] rewards_data total_rewards_usd =
     (rewards_data, total_rewards_usd)"
| "rewards_loop tok price_cache ((token_addr, amount) # rest) rewards_data total_rewards_usd =
     (let reward_token_info = tok token_addr;
          display_amount = format_amount (int amount) (decimals reward_token_info);
          reward_price = price_cache (symbol reward_token_info);
          usd_value = reward_usd_value reward_token_info reward_price amount
      in rewards_loop tok price_cache rest
           (rewards_data @
              [\<lparr>rw_amount = display_amount, rw_symbol = symbol reward_token_info,
                rw_usd_value = fmt_fixed True 2 (reward_shown reward_token_info usd_value)\<rparr>])
           (reward_credit reward_token_info reward_price usd_value total_rewards_usd))"

subsection \<open>Annualised yield\<close>

record apr_out =
  annualized_apr :: real
  days_active :: real
  daily_projected_usd_earnings :: real
  annual_projected_usd_earnings :: real

text \<open>
  Lines 751 to 769. \<open>secs\<close> is \<^verbatim>\<open>time_difference.total_seconds()\<close>. An exception
  inside the \<^verbatim>\<open>try\<close> (the date does not parse, or a division by zero) resets the
  APR to zero and keeps what was assigned before.
\<close>

definition apr_block :: "baseline \<Rightarrow> real \<Rightarrow> real \<Rightarrow> real \<Rightarrow> apr_out" where
  "apr_block info secs position_usd_value total_rewards_usd =
     (case b_date info of
        Current t \<Rightarrow>
          \<lparr>annualized_apr = 0, days_active = 0,
           daily_projected_usd_earnings = 0, annual_projected_usd_earnings = 0\<rparr>
      | Unparsable \<Rightarrow>
          \<lparr>annualized_apr = 0, days_active = 0,
           daily_projected_usd_earnings = 0, annual_projected_usd_earnings = 0\<rparr>
      | Stamp t \<Rightarrow>
          (let days = ddiv secs 86400 in
           if position_usd_value > 0 \<and> days > 0 then
             (if ddiv days 365 = 0 then
                \<lparr>annualized_apr = 0, days_active = days,
                 daily_projected_usd_earnings = 0, annual_projected_usd_earnings = 0\<rparr>
              else
                (let apr = dmul (ddiv (ddiv total_rewards_usd position_usd_value)
                                      (ddiv days 365)) 100;
                     annual = dmul position_usd_value (ddiv apr 100);
                     daily = ddiv annual 365
                 in \<lparr>annualized_apr = apr, days_active = days,
                     daily_projected_usd_earnings = daily,
                     annual_projected_usd_earnings = annual\<rparr>))
           else
             \<lparr>annualized_apr = 0, days_active = days,
              daily_projected_usd_earnings = 0, annual_projected_usd_earnings = 0\<rparr>))"

subsection \<open>Impermanent loss and breakeven\<close>

definition daily_rewards_usd_of :: "real \<Rightarrow> real \<Rightarrow> real" where
  "daily_rewards_usd_of position_usd_value apr =
     (if apr > 0 then ddiv (dmul position_usd_value (ddiv apr 100)) 365 else 0)"

definition days_to_breakeven_of :: "real \<Rightarrow> real \<Rightarrow> real \<Rightarrow> real" where
  "days_to_breakeven_of apr daily_rewards_usd il_usd =
     (if apr > 0 \<and> daily_rewards_usd > 0 then
        (if il_usd > 0 then ddiv il_usd daily_rewards_usd else 0)
      else 0)"

definition breakeven_str :: "real \<Rightarrow> real \<Rightarrow> string" where
  "breakeven_str days_to_breakeven time_remaining =
     (if days_to_breakeven > 0 then
        (let total_time_str = format_timedelta (Dec days_to_breakeven);
             remaining_time_str = format_timedelta (Dec time_remaining)
         in if remaining_time_str \<noteq> ''Met''
            then total_time_str @ '' ('' @ remaining_time_str @ '' left)''
            else total_time_str @ '' (Met)'')
      else ''N/A'')"

definition time_remaining_perc :: "real \<Rightarrow> real \<Rightarrow> real" where
  "time_remaining_perc days_to_breakeven time_remaining =
     (if days_to_breakeven > 0 then dmul (ddiv time_remaining days_to_breakeven) 100 else 0)"

text \<open>The local variables of the \<^verbatim>\<open>try\<close> block of lines 773 to 843.\<close>

record il_values =
  il_perc_lower :: real
  il_perc_upper :: real
  il_usd_lower :: real
  il_usd_upper :: real
  daily_rewards_usd :: real
  days_to_breakeven_lower :: real
  days_to_breakeven_upper :: real
  time_remaining_lower :: real
  time_remaining_upper :: real
  fee_il_diff_lower :: real
  fee_il_diff_upper :: real
  il_perc_current :: real
  il_usd_current :: real
  net_gain_loss :: real
  breakeven_lower_str :: string
  breakeven_upper_str :: string
  time_remaining_perc_lower :: real
  time_remaining_perc_upper :: real
  perc_to_lower :: real
  perc_to_upper :: real

definition il_compute ::
  "nat \<Rightarrow> nat \<Rightarrow> baseline \<Rightarrow> real \<Rightarrow> real \<Rightarrow> apr_out \<Rightarrow> real \<Rightarrow> real \<Rightarrow> real \<Rightarrow> real
     \<Rightarrow> il_values res" where
  "il_compute dec0 dec1 info initial_price position_usd_value apr total_rewards_usd
              price_lower price_upper current_price =
     rbind (calculate_il_percentage initial_price price_lower price_lower price_upper)
       (\<lambda>il_perc_l.
     rbind (calculate_il_percentage initial_price price_upper price_lower price_upper)
       (\<lambda>il_perc_u.
     let initial_amount0_adj = ddiv (of_int (b_amount0 info)) (10 ^ dec0);
         initial_amount1_adj = ddiv (of_int (b_amount1 info)) (10 ^ dec1);
         hodl_val_at_lower = dadd (dmul initial_amount0_adj price_lower) initial_amount1_adj;
         il_usd_l = dmul il_perc_l hodl_val_at_lower;
         hodl_val_at_upper = dadd (dmul initial_amount0_adj price_upper) initial_amount1_adj;
         il_usd_u = dmul il_perc_u hodl_val_at_upper;
         daily = daily_rewards_usd_of position_usd_value (annualized_apr apr);
         dtb_l = days_to_breakeven_of (annualized_apr apr) daily il_usd_l;
         dtb_u = days_to_breakeven_of (annualized_apr apr) daily il_usd_u;
         tr_l = dsub dtb_l (days_active apr);
         tr_u = dsub dtb_u (days_active apr)
     in
     rbind (calculate_il_percentage initial_price current_price price_lower price_upper)
       (\<lambda>il_perc_c.
     let hodl_val_at_current = dadd (dmul initial_amount0_adj current_price) initial_amount1_adj;
         il_usd_c = dmul il_perc_c hodl_val_at_current
     in Inr \<lparr>il_perc_lower = il_perc_l, il_perc_upper = il_perc_u,
             il_usd_lower = il_usd_l, il_usd_upper = il_usd_u,
             daily_rewards_usd = daily,
             days_to_breakeven_lower = dtb_l, days_to_breakeven_upper = dtb_u,
             time_remaining_lower = tr_l, time_remaining_upper = tr_u,
             fee_il_diff_lower = dsub total_rewards_usd il_usd_l,
             fee_il_diff_upper = dsub total_rewards_usd il_usd_u,
             il_perc_current = il_perc_c, il_usd_current = il_usd_c,
             net_gain_loss = dsub total_rewards_usd il_usd_c,
             breakeven_lower_str = breakeven_str dtb_l tr_l,
             breakeven_upper_str = breakeven_str dtb_u tr_u,
             time_remaining_perc_lower = time_remaining_perc dtb_l tr_l,
             time_remaining_perc_upper = time_remaining_perc dtb_u tr_u,
             perc_to_lower =
               (if current_price > 0
                then dmul (ddiv (dsub current_price price_lower) current_price) 100 else 0),
             perc_to_upper =
               (if current_price > 0
                then dmul (ddiv (dsub price_upper current_price) current_price) 100 else 0)\<rparr>)))"

record bound_il =
  bi_price :: string
  bi_il_usd :: string
  bi_il_perc :: string
  bi_breakeven_time :: string
  bi_breakeven_time_perc :: real
  bi_fees_vs_il :: string

record il_report =
  lower_bound :: bound_il
  upper_bound :: bound_il
  cur_il_usd :: string
  cur_il_perc :: string
  cur_net_gain_loss :: string
  position_age :: string

definition il_render :: "il_values \<Rightarrow> real \<Rightarrow> real \<Rightarrow> real \<Rightarrow> il_report" where
  "il_render v price_lower price_upper days =
     \<lparr>lower_bound =
        \<lparr>bi_price = fmt_fixed True 0 price_lower,
         bi_il_usd = fmt_fixed True 2 (il_usd_lower v),
         bi_il_perc = fmt_percent (il_perc_lower v),
         bi_breakeven_time = breakeven_lower_str v,
         bi_breakeven_time_perc = time_remaining_perc_lower v,
         bi_fees_vs_il = fmt_fixed True 2 (fee_il_diff_lower v)\<rparr>,
      upper_bound =
        \<lparr>bi_price = fmt_fixed True 0 price_upper,
         bi_il_usd = fmt_fixed True 2 (il_usd_upper v),
         bi_il_perc = fmt_percent (il_perc_upper v),
         bi_breakeven_time = breakeven_upper_str v,
         bi_breakeven_time_perc = time_remaining_perc_upper v,
         bi_fees_vs_il = fmt_fixed True 2 (fee_il_diff_upper v)\<rparr>,
      cur_il_usd = fmt_fixed True 2 (il_usd_current v),
      cur_il_perc = fmt_percent (il_perc_current v),
      cur_net_gain_loss = fmt_fixed True 2 (net_gain_loss v),
      position_age = format_timedelta (Dec days)\<rparr>"

text \<open>
  Lines 771 to 872: the block runs only behind its guard; an exception inside the
  \<^verbatim>\<open>try\<close> leaves \<^verbatim>\<open>il_data\<close> empty. The result is \<^verbatim>\<open>il_data\<close> (\<open>None\<close> for the
  empty dict) together with the values the block computed, if it completed.
\<close>

definition il_block ::
  "nat \<Rightarrow> nat \<Rightarrow> baseline \<Rightarrow> real \<Rightarrow> apr_out \<Rightarrow> real \<Rightarrow> real \<Rightarrow> real \<Rightarrow> real
     \<Rightarrow> il_values option" where
  "il_block dec0 dec1 info position_usd_value apr total_rewards_usd
            price_lower price_upper current_price =
     (if initial_price_val_of info > 0 \<and> position_usd_value > 0 \<and> days_active apr > 0 then
        (case il_compute dec0 dec1 info (initial_price_val_of info) position_usd_value apr
                total_rewards_usd price_lower price_upper current_price of
           Inl e \<Rightarrow> None
         | Inr v \<Rightarrow> Some v)
      else None)"

subsection \<open>One iteration of the reporting loop\<close>

record position_report =
  pr_token_id :: nat
  pr_pair :: string
  pr_status :: string
  pr_estimated_value_usd :: string
  pr_price_range :: string
  pr_price_range_lower :: string
  pr_price_range_upper :: string
  pr_price_range_percentage :: real
  pr_perc_to_lower :: string
  pr_perc_to_upper :: string
  pr_current_price :: string
  pr_initial_date :: date_field
  pr_initial_balances :: string
  pr_initial_price :: string
  pr_initial_usd_value :: string
  pr_current_balances :: string
  pr_rewards :: "reward_entry list"
  pr_total_rewards_usd :: string
  pr_annualized_apr :: string
  pr_daily_projected_usd_earnings :: string
  pr_annual_projected_usd_earnings :: string
  pr_impermanent_loss_data :: "il_report option"

text \<open>
  The variables that live across iterations. \<open>perc\<close> holds \<^verbatim>\<open>perc_to_lower\<close> and
  \<^verbatim>\<open>perc_to_upper\<close>, which are only ever assigned inside the impermanent-loss block:
  \<open>None\<close> while they are unbound.
\<close>

record loop_state =
  cache :: "nat \<rightharpoonup> baseline"
  total_portfolio_value :: real
  perc :: "(real \<times> real) option"
  all_positions_data :: "position_report list"

text \<open>Lines 651 to 675: the baseline is captured when the store has none.\<close>

definition capture_baseline ::
  "chain \<Rightarrow> (nat \<rightharpoonup> baseline) \<Rightarrow> nat \<Rightarrow> pos_data \<Rightarrow> nat \<Rightarrow> nat \<Rightarrow> int \<Rightarrow> int \<Rightarrow> real
     \<Rightarrow> (nat \<rightharpoonup> baseline) res" where
  "capture_baseline ch initial_data_cache tid pos dec0 dec1 amount0 amount1 current_price =
     (if initial_data_cache tid \<noteq> None then Inr initial_data_cache
      else case creation_of ch tid of
          Some ci \<Rightarrow>
            (case pool_then ch tid of
               Some hist_pool_info \<Rightarrow>
                 rbind (calculate_token_amounts (liquidity pos) (sqrt_price hist_pool_info)
                          (tickLower pos) (tickUpper pos))
                   (\<lambda>(initial_amount0, initial_amount1).
                      Inr (initial_data_cache(tid \<mapsto>
                        \<lparr>b_date = Stamp (timestamp ci), b_block = Some (block_number ci),
                         b_amount0 = initial_amount0, b_amount1 = initial_amount1,
                         b_price = Some (tick_to_price (current_tick hist_pool_info) dec0 dec1)\<rparr>)))
             | None \<Rightarrow> Inr initial_data_cache)
        | None \<Rightarrow>
            Inr (initial_data_cache(tid \<mapsto>
              \<lparr>b_date = Current (clock ch tid), b_block = None,
               b_amount0 = amount0, b_amount1 = amount1,
               b_price = Some current_price\<rparr>)))"

definition price_range_percentage_of :: "real \<Rightarrow> real \<Rightarrow> real \<Rightarrow> real" where
  "price_range_percentage_of current_price price_lower price_upper =
     (if dsub price_upper price_lower > 0
      then dmul (ddiv (dsub current_price price_lower) (dsub price_upper price_lower)) 100
      else 0)"

definition process_position ::
  "chain \<Rightarrow> (string \<rightharpoonup> real) \<Rightarrow> loop_state \<Rightarrow> nat \<times> pos_data \<Rightarrow> loop_state res" where
  "process_position ch price_cache st pos_container =
     (let token_id = fst pos_container;
          pos = snd pos_container;
          token0_info = token_of ch (token0 pos);
          token1_info = token_of ch (token1 pos);
          dec0 = decimals token0_info;
          dec1 = decimals token1_info
      in case pool_now ch token_id of
        None \<Rightarrow> Inr st
      | Some current_pool_info \<Rightarrow>
        rbind (calculate_token_amounts (liquidity pos) (sqrt_price current_pool_info)
                 (tickLower pos) (tickUpper pos))
          (\<lambda>(amount0, amount1).
        let current_price = tick_to_price (current_tick current_pool_info) dec0 dec1 in
        rbind (capture_baseline ch (cache st) token_id pos dec0 dec1 amount0 amount1 current_price)
          (\<lambda>initial_data_cache.
        case initial_data_cache token_id of
          None \<Rightarrow> Inl KeyError
        | Some initial_info \<Rightarrow>
        let price0 = price_cache (symbol token0_info);
            price1 = price_cache (symbol token1_info);
            position_usd_value = position_value token0_info token1_info amount0 amount1 price0 price1;
            total' = dadd (total_portfolio_value st) position_usd_value;
            position_status =
              (if tickLower pos \<le> current_tick current_pool_info
                  \<and> current_tick current_pool_info \<le> tickUpper pos
               then ''IN RANGE'' else ''OUT OF RANGE'');
            price_lower = tick_to_price (tickLower pos) dec0 dec1;
            price_upper = tick_to_price (tickUpper pos) dec0 dec1;
            initial_price_val = initial_price_val_of initial_info;
            initial_usd_value = initial_value token0_info token1_info initial_info price0 price1;
            rewards = rewards_loop (token_of ch) price_cache (emissions_of ch token_id) [] 0;
            rewards_data = fst rewards;
            total_rewards_usd = snd rewards;
            apr = apr_block initial_info (elapsed_seconds ch token_id)
                    position_usd_value total_rewards_usd;
            il = il_block dec0 dec1 initial_info position_usd_value apr total_rewards_usd
                   price_lower price_upper current_price;
            perc' = (case il of None \<Rightarrow> perc st
                     | Some v \<Rightarrow> Some (perc_to_lower v, perc_to_upper v))
        in (case perc' of
          None \<Rightarrow> Inl UnboundLocalError
        | Some (p_lower, p_upper) \<Rightarrow>
          Inr \<lparr>cache = initial_data_cache,
               total_portfolio_value = total',
               perc = perc',
               all_positions_data = all_positions_data st @
                 [\<lparr>pr_token_id = token_id,
                   pr_pair = symbol token0_info @ ''/'' @ symbol token1_info,
                   pr_status = position_status,
                   pr_estimated_value_usd = fmt_fixed True 2 position_usd_value,
                   pr_price_range =
                     fmt_fixed True 0 price_lower @ '' - '' @ fmt_fixed True 0 price_upper,
                   pr_price_range_lower = fmt_fixed True 0 price_lower,
                   pr_price_range_upper = fmt_fixed True 0 price_upper,
                   pr_price_range_percentage =
                     price_range_percentage_of current_price price_lower price_upper,
                   pr_perc_to_lower = fmt_fixed True 2 p_lower @ ''%'',
                   pr_perc_to_upper = fmt_fixed True 2 p_upper @ ''%'',
                   pr_current_price =
                     fmt_fixed True 0 current_price @ '' '' @ symbol token1_info
                       @ ''/'' @ symbol token0_info,
                   pr_initial_date = b_date initial_info,
                   pr_initial_balances =
                     format_amount (b_amount0 initial_info) dec0 @ '' '' @ symbol token0_info
                       @ '' & '' @ format_amount (b_amount1 initial_info) dec1 @ '' ''
                       @ symbol token1_info,
                   pr_initial_price =
                     fmt_fixed True 0 initial_price_val @ '' '' @ symbol token1_info
                       @ ''/'' @ symbol token0_info,
                   pr_initial_usd_value = fmt_fixed True 2 initial_usd_value,
                   pr_current_balances =
                     format_amount amount0 dec0 @ '' '' @ symbol token0_info
                       @ '' & '' @ format_amount amount1 dec1 @ '' '' @ symbol token1_info,
                   pr_rewards = rewards_data,
                   pr_total_rewards_usd = fmt_fixed True 2 total_rewards_usd,
                   pr_annualized_apr = fmt_fixed True 2 (annualized_apr apr) @ ''%'',
                   pr_daily_projected_usd_earnings =
                     fmt_fixed True 2 (daily_projected_usd_earnings apr),
                   pr_annual_projected_usd_earnings =
                     fmt_fixed True 2 (annual_projected_usd_earnings apr),
                   pr_impermanent_loss_data =
                     map_option (\<lambda>v. il_render v price_lower price_upper (days_active apr)) il\<rparr>]\<rparr>))))"

text \<open>The \<^verbatim>\<open>for\<close> loop of line 632: an exception that escapes an iteration ends it.\<close>

fun positions_loop ::
  "chain \<Rightarrow> (string \<rightharpoonup> real) \<Rightarrow> loop_state \<Rightarrow> (nat \<times> pos_data) list \<Rightarrow> loop_state res" where
  "positions_loop ch price_cache st [] = Inr st"
| "positions_loop ch price_cache st (p # ps) =
     rbind (process_position ch price_cache st p) (\<lambda>st'. positions_loop ch price_cache st' ps)"

subsection \<open>The whole function\<close>

record portfolio_report =
  pf_total_portfolio_value :: string
  pf_num_active_positions :: nat
  pf_positions :: "position_report list"

datatype response =
    ConnectError | BalanceError | Message string | Portfolio portfolio_report

definition find_and_display_positions :: "chain \<Rightarrow> response res" where
  "find_and_display_positions ch =
     (if \<not> connected ch then Inr ConnectError
      else case balance_of ch of
          None \<Rightarrow> Inr BalanceError
        | Some balance \<Rightarrow>
            if balance = 0 then Inr (Message ''No positions found for this wallet.'')
            else
              (let active_positions = enumerate_active (position_at ch) balance in
               if active_positions = [] then Inr (Message ''No active positions found.'')
               else
                 rbind (positions_loop ch (build_price_cache ch)
                          \<lparr>cache = stored ch, total_portfolio_value = 0, perc = None,
                           all_positions_data = []\<rparr> active_positions)
                   (\<lambda>st. Inr (Portfolio
                      \<lparr>pf_total_portfolio_value = fmt_fixed True 2 (total_portfolio_value st),
                       pf_num_active_positions = length active_positions,
                       pf_positions = all_positions_data st\<rparr>))))"

section \<open>Example inputs\<close>

text \<open>
  A wallet of seven positions: an active one at index 0, five without liquidity at
  indices 1 to 5, an active one at index 6 whose pool is not in \<^verbatim>\<open>KNOWN_POOLS\<close>.
\<close>

definition closed_pos :: pos_data where
  "closed_pos = \<lparr>token0 = ''0xWBTC'', token1 = ''0xUSDC'', tickSpacing = 50,
                  tickLower = -100, tickUpper = 100, liquidity = 0\<rparr>"

definition open_pos :: pos_data where
  "open_pos = \<lparr>token0 = ''0xWBTC'', token1 = ''0xUSDC'', tickSpacing = 50,
                tickLower = -100, tickUpper = 100, liquidity = 1000000\<rparr>"

definition wallet7 :: chain where
  "wallet7 =
     \<lparr>connected = True, stored = Map.empty,
      wbtc_price = None, shadow_price = None, xshadow_price = None,
      balance_of = Some 7,
      position_at = (\<lambda>i. if i = 0 then Some (100, open_pos)
                          else if i < 6 then Some (100 + i, closed_pos)
                          else if i = 6 then Some (106, open_pos) else None),
      token_of = (\<lambda>a. \<lparr>symbol = ''WBTC'', decimals = 8\<rparr>),
      pool_now = (\<lambda>t. None), creation_of = (\<lambda>t. None), pool_then = (\<lambda>t. None),
      emissions_of = (\<lambda>t. []), clock = (\<lambda>t. 0), elapsed_seconds = (\<lambda>t. 0)\<rparr>"


text \<open>
  The credited value of a reward in the words of the specification: the nominal
  value \<open>raw / 10^decimals \<times> price\<close>, halved for the symbol xSHADOW.
\<close>

definition spec_credited_usd :: "token_info \<Rightarrow> real \<Rightarrow> nat \<Rightarrow> real" where
  "spec_credited_usd info price raw =
     (let nominal = dmul (ddiv (of_nat raw) (10 ^ decimals info)) price
      in if symbol info = ''xSHADOW'' then ddiv nominal 2 else nominal)"

text \<open>Two reward tokens of 18 decimals, both priced at 3 USD.\<close>

definition example_tok :: "string \<Rightarrow> token_info" where
  "example_tok a = (if a = ''0x5050'' then \<lparr>symbol = ''xSHADOW'', decimals = 18\<rparr>
                    else \<lparr>symbol = ''SHADOW'', decimals = 18\<rparr>)"

definition example_prices :: "string \<rightharpoonup> real" where
  "example_prices = [''SHADOW'' \<mapsto> 3, ''xSHADOW'' \<mapsto> 3]"

text \<open>A stored baseline with a well-formed date.\<close>

definition example_baseline :: baseline where
  "example_baseline = \<lparr>b_date = Stamp 0, b_block = Some 1, b_amount0 = 0, b_amount1 = 0,
                        b_price = Some 1\<rparr>"

subsection \<open>An input for the breakeven estimate\<close>

text \<open>
  A baseline holding 2 units of token1 (6 decimals) entered at price 4, and a yield of
  36.5 percent after half a day.
\<close>

definition breakeven_baseline :: baseline where
  "breakeven_baseline = \<lparr>b_date = Stamp 0, b_block = Some 1, b_amount0 = 0,
                          b_amount1 = 2000000, b_price = Some 4\<rparr>"

definition breakeven_apr :: apr_out where
  "breakeven_apr = \<lparr>annualized_apr = 73 / 2, days_active = 1 / 2,
                     daily_projected_usd_earnings = 1, annual_projected_usd_earnings = 365\<rparr>"

subsection \<open>A baseline captured in the same report\<close>

text \<open>
  The fallback snapshot of lines 668 to 675: the date carries the marker
  \<^verbatim>\<open>" (Current)"\<close> and the price is the current price.
\<close>

definition fresh_baseline :: baseline where
  "fresh_baseline = \<lparr>b_date = Current 0, b_block = None, b_amount0 = 0,
                      b_amount1 = 2000000, b_price = Some 4\<rparr>"

subsection \<open>Two wallets whose first position cannot be completed\<close>

text \<open>
  Both wallets hold two active positions, 100 and 101, of the WBTC/USDC pool, and the
  store has no baseline for either. In \<open>history_gap_wallet\<close> the creation event of
  position 100 is found at block 5, but the pool cannot be read at that block. In
  \<open>fresh_wallet\<close> the log scan finds no creation event.
\<close>

definition pool1 :: pool_info where
  "pool1 = \<lparr>pool_address = ''0xPOOL'', sqrt_price = 1, current_tick = 0\<rparr>"

definition two_positions :: "nat \<Rightarrow> (nat \<times> pos_data) option" where
  "two_positions i = (if i = 0 then Some (100, open_pos)
                      else if i = 1 then Some (101, open_pos) else None)"

definition wbtc_usdc :: "string \<Rightarrow> token_info" where
  "wbtc_usdc a = (if a = ''0xUSDC'' then \<lparr>symbol = ''USDC'', decimals = 6\<rparr>
                  else \<lparr>symbol = ''WBTC'', decimals = 8\<rparr>)"

definition history_gap_wallet :: chain where
  "history_gap_wallet =
     \<lparr>connected = True, stored = Map.empty,
      wbtc_price = Some 100000, shadow_price = None, xshadow_price = None,
      balance_of = Some 2, position_at = two_positions, token_of = wbtc_usdc,
      pool_now = (\<lambda>t. Some pool1),
      creation_of = (\<lambda>t. Some \<lparr>block_number = 5, timestamp = 0\<rparr>),
      pool_then = (\<lambda>t. if t = 100 then None else Some pool1),
      emissions_of = (\<lambda>t. []), clock = (\<lambda>t. 0), elapsed_seconds = (\<lambda>t. 86400)\<rparr>"

definition fresh_wallet :: chain where
  "fresh_wallet =
     \<lparr>connected = True, stored = Map.empty,
      wbtc_price = Some 100000, shadow_price = None, xshadow_price = None,
      balance_of = Some 2, position_at = two_positions, token_of = wbtc_usdc,
      pool_now = (\<lambda>t. Some pool1),
      creation_of = (\<lambda>t. None),
      pool_then = (\<lambda>t. None),
      emissions_of = (\<lambda>t. []), clock = (\<lambda>t. 0), elapsed_seconds = (\<lambda>t. 0)\<rparr>"

section \<open>Properties of the rounding\<close>

lemma digs_pos: "0 < digs n"
  by (subst digs.simps) simp

lemma digs_bounds: "0 < n \<Longrightarrow> 10 ^ (digs n - 1) \<le> n \<and> n < 10 ^ digs n"
proof (induction n rule: digs.induct)
  case (1 n)
  show ?case
  proof (cases "n < 10")
    case True
    then have "digs n = 1" by (subst digs.simps) simp
    with True 1(2) show ?thesis by simp
  next
    case False
    then have d: "digs n = Suc (digs (n div 10))" by (subst digs.simps) simp
    have "0 < n div 10" using False by simp
    with 1(1)[OF False] have IH: "10 ^ (digs (n div 10) - 1) \<le> n div 10" "n div 10 < 10 ^ digs (n div 10)"
      by auto
    have p: "digs (n div 10) = Suc (digs (n div 10) - 1)" using digs_pos[of "n div 10"] by simp
    have "(10::nat) ^ digs (n div 10) = 10 * 10 ^ (digs (n div 10) - 1)"
      by (subst p) simp
    also have "\<dots> \<le> 10 * (n div 10)" using IH(1) by simp
    also have "\<dots> \<le> n" by simp
    finally have lo: "10 ^ digs (n div 10) \<le> n" .
    have "n < 10 * (n div 10 + 1)" by simp
    also have "\<dots> \<le> 10 * 10 ^ digs (n div 10)" using IH(2) by simp
    finally have hi: "n < 10 ^ Suc (digs (n div 10))" by simp
    from lo hi d show ?thesis by simp
  qed
qed

lemma adjusted_bounds_ge1:
  assumes True: "1 \<le> \<bar>x\<bar>"
  shows "10 powi (adjusted x) \<le> \<bar>x\<bar> \<and> \<bar>x\<bar> < 10 powi (adjusted x + 1)"
proof -
  define n where "n = nat \<lfloor>\<bar>x\<bar>\<rfloor>"
  have fl0: "1 \<le> \<lfloor>\<bar>x\<bar>\<rfloor>" using True by linarith
  have n1: "0 < n" using fl0 by (simp add: n_def)
  have rn: "real n = of_int \<lfloor>\<bar>x\<bar>\<rfloor>" using fl0 by (simp add: n_def)
  have fl: "real n \<le> \<bar>x\<bar>" "\<bar>x\<bar> < real n + 1"
    unfolding rn by linarith+
  obtain k where k: "digs n = Suc k" using digs_pos[of n] by (cases "digs n") auto
  have a: "adjusted x = int k" using True by (simp add: adjusted_def n_def[symmetric] k)
  from digs_bounds[OF n1] have b: "10 ^ k \<le> n" "n < 10 ^ Suc k" by (auto simp: k)
  have "(10::real) ^ k \<le> real n"
    using of_nat_mono[OF b(1), where 'a = real] by simp
  then have lo: "(10::real) ^ k \<le> \<bar>x\<bar>" using fl(1) by linarith
  have "n + 1 \<le> 10 ^ Suc k" using b(2) by simp
  then have "real (n + 1) \<le> 10 ^ Suc k"
    using of_nat_mono[of "n + 1" "10 ^ Suc k", where 'a = real] by simp
  then have hi: "\<bar>x\<bar> < 10 ^ Suc k" using fl(2) by simp
  have e2: "(10::real) powi (int k + 1) = 10 ^ Suc k"
    using power_int_of_nat[of "10::real" "Suc k"] by (simp add: add.commute)
  from lo hi show ?thesis unfolding a e2 by simp
qed

lemma adjusted_bounds_lt1:
  assumes x0: "0 < \<bar>x\<bar>" and x1: "\<bar>x\<bar> < 1"
  shows "10 powi (adjusted x) \<le> \<bar>x\<bar> \<and> \<bar>x\<bar> < 10 powi (adjusted x + 1)"
proof -
  define y where "y = 1 / \<bar>x\<bar>"
  have y1: "1 < y" using x0 x1 by (simp add: y_def)
  have xy: "\<bar>x\<bar> = 1 / y" by (simp add: y_def)
  define n where "n = nat (\<lceil>y\<rceil> - 1)"
  have c2: "2 \<le> \<lceil>y\<rceil>" using y1 by linarith
  then have n1: "0 < n" by (simp add: n_def)
  have rn: "real n = of_int \<lceil>y\<rceil> - 1" using c2 by (simp add: n_def)
  have ny: "real n < y" "y \<le> real n + 1"
    unfolding rn by linarith+
  obtain k where k: "digs n = Suc k" using digs_pos[of n] by (cases "digs n") auto
  have a: "adjusted x = - int (Suc k)"
    using x1 by (simp add: adjusted_def y_def[symmetric] n_def[symmetric] k)
  from digs_bounds[OF n1] have b: "10 ^ k \<le> n" "n < 10 ^ Suc k" by (auto simp: k)
  have "n + 1 \<le> 10 ^ Suc k" using b(2) by simp
  then have "real (n + 1) \<le> 10 ^ Suc k"
    using of_nat_mono[of "n + 1" "10 ^ Suc k", where 'a = real] by simp
  then have yhi: "y \<le> 10 ^ Suc k" using ny(2) by simp
  have "(10::real) ^ k \<le> real n"
    using of_nat_mono[OF b(1), where 'a = real] by simp
  then have ylo: "10 ^ k < y" using ny(1) by linarith
  have e1: "(10::real) powi (- int (Suc k)) = 1 / 10 ^ Suc k"
    by (simp only: power_int_minus power_int_of_nat inverse_eq_divide)
  have "- int (Suc k) + 1 = - int k" by simp
  then have e2: "(10::real) powi (- int (Suc k) + 1) = 1 / 10 ^ k"
    by (simp only: power_int_minus power_int_of_nat inverse_eq_divide)
  have y0: "0 < y" using y1 by simp
  have lo: "1 / 10 ^ Suc k \<le> 1 / y"
    using yhi y0 by (intro divide_left_mono) simp_all
  have hi: "1 / y < 1 / 10 ^ k"
    using ylo y0 by (intro divide_strict_left_mono) simp_all
  from lo hi show ?thesis unfolding a e1 e2 xy by simp
qed

lemma adjusted_bounds:
  assumes "x \<noteq> 0"
  shows "10 powi (adjusted x) \<le> \<bar>x\<bar> \<and> \<bar>x\<bar> < 10 powi (adjusted x + 1)"
proof (cases "1 \<le> \<bar>x\<bar>")
  case True
  then show ?thesis by (rule adjusted_bounds_ge1)
next
  case False
  then have "\<bar>x\<bar> < 1" by simp
  moreover have "0 < \<bar>x\<bar>" using assms by simp
  ultimately show ?thesis by (rule adjusted_bounds_lt1[rotated])
qed

lemma power_int_10_mono: "a \<le> b \<Longrightarrow> (10::real) powi a \<le> 10 powi b"
  by (rule power_int_increasing) simp_all

lemma adjusted_unique:
  assumes "10 powi a \<le> \<bar>x\<bar>" "\<bar>x\<bar> < 10 powi (a + 1)"
  shows "adjusted x = a"
proof -
  have "(0::real) < 10 powi a" by simp
  with assms(1) have "0 < \<bar>x\<bar>" by linarith
  then have "x \<noteq> 0" by simp
  from adjusted_bounds[OF this] have b: "10 powi (adjusted x) \<le> \<bar>x\<bar>" "\<bar>x\<bar> < 10 powi (adjusted x + 1)"
    by auto
  have "\<not> adjusted x < a"
  proof
    assume "adjusted x < a"
    then have "adjusted x + 1 \<le> a" by simp
    from power_int_10_mono[OF this] b(2) assms(1) show False by linarith
  qed
  moreover have "\<not> a < adjusted x"
  proof
    assume "a < adjusted x"
    then have "a + 1 \<le> adjusted x" by simp
    from power_int_10_mono[OF this] b(1) assms(2) show False by linarith
  qed
  ultimately show ?thesis by simp
qed

lemma rhe_cases: "round_half_even y = \<lfloor>y\<rfloor> \<or> round_half_even y = \<lfloor>y\<rfloor> + 1"
  by (simp add: round_half_even_def Let_def)

lemma rhe_err: "\<bar>of_int (round_half_even y) - y\<bar> \<le> 1 / 2"
proof -
  have "of_int \<lfloor>y\<rfloor> \<le> y" "y < of_int \<lfloor>y\<rfloor> + 1" by linarith+
  then show ?thesis by (auto simp: round_half_even_def Let_def)
qed

lemma rhe_of_int: "round_half_even (of_int n) = n"
  by (simp add: round_half_even_def Let_def)

lemma rhe_near:
  assumes "\<bar>y - of_int m\<bar> < 1 / 2"
  shows "round_half_even y = m"
proof -
  have e: "\<bar>of_int (round_half_even y) - y\<bar> \<le> 1 / 2" by (rule rhe_err)
  have "\<bar>(of_int (round_half_even y) :: real) - of_int m\<bar> < 1" using e assms by linarith
  then have "\<bar>round_half_even y - m\<bar> < 1"
    by (metis of_int_abs of_int_diff of_int_less_1_iff)
  then show ?thesis by simp
qed

lemma rhe_mono:
  assumes "y \<le> z"
  shows "round_half_even y \<le> round_half_even z"
proof (cases "\<lfloor>y\<rfloor> = \<lfloor>z\<rfloor>")
  case True
  then show ?thesis using assms by (auto simp: round_half_even_def Let_def)
next
  case False
  then have "\<lfloor>y\<rfloor> + 1 \<le> \<lfloor>z\<rfloor>" using floor_mono[OF assms] by simp
  moreover have "round_half_even y \<le> \<lfloor>y\<rfloor> + 1" using rhe_cases[of y] by auto
  moreover have "\<lfloor>z\<rfloor> \<le> round_half_even z" using rhe_cases[of z] by auto
  ultimately show ?thesis by linarith
qed

lemma rhe_minus: "round_half_even (- y) = - round_half_even y"
proof (cases "y = of_int \<lfloor>y\<rfloor>")
  case True
  then obtain n where "y = of_int n" by blast
  then show ?thesis using rhe_of_int[of n] rhe_of_int[of "- n"] by simp
next
  case False
  then have c: "\<lceil>y\<rceil> = \<lfloor>y\<rfloor> + 1" by (simp add: ceiling_altdef)
  have f: "\<lfloor>- y\<rfloor> = - \<lfloor>y\<rfloor> - 1" using c by (simp add: floor_minus)
  show ?thesis
    unfolding round_half_even_def Let_def f by auto
qed

lemma rhe_nonneg: "0 \<le> y \<Longrightarrow> 0 \<le> round_half_even y"
  using rhe_mono[of 0 y] rhe_of_int[of 0] by simp

lemma rnd_zero: "rnd 0 = 0"
  by (simp add: rnd_def)

lemma adjusted_minus: "adjusted (- x) = adjusted x"
  by (simp add: adjusted_def)

lemma rnd_minus: "rnd (- x) = - rnd x"
  by (simp add: rnd_def adjusted_minus rhe_minus)

lemma scaled_bounds:
  assumes "0 < x"
  shows "10 ^ 49 \<le> x / 10 powi (adjusted x - 49) \<and> x / 10 powi (adjusted x - 49) < 10 ^ 50"
proof -
  have x: "x \<noteq> 0" "\<bar>x\<bar> = x" using assms by simp_all
  from adjusted_bounds[OF x(1)] have b: "10 powi adjusted x \<le> x" "x < 10 powi (adjusted x + 1)"
    unfolding x(2) by auto
  have p: "(0::real) < 10 powi (adjusted x - 49)" by simp
  have e1: "(10::real) powi adjusted x = 10 ^ 49 * 10 powi (adjusted x - 49)"
    using power_int_add[of "10::real" 49 "adjusted x - 49"] by simp
  have e2: "(10::real) powi (adjusted x + 1) = 10 ^ 50 * 10 powi (adjusted x - 49)"
    using power_int_add[of "10::real" 50 "adjusted x - 49"] by (simp add: add.commute)
  have "10 ^ 49 * 10 powi (adjusted x - 49) \<le> x" using b(1) e1 by simp
  then have lo: "10 ^ 49 \<le> x / 10 powi (adjusted x - 49)"
    using p by (simp add: pos_le_divide_eq)
  have "x < 10 ^ 50 * 10 powi (adjusted x - 49)" using b(2) e2 by simp
  then have hi: "x / 10 powi (adjusted x - 49) < 10 ^ 50"
    using p by (simp add: pos_divide_less_eq)
  from lo hi show ?thesis ..
qed

lemma rnd_pos_bounds:
  assumes "0 < x"
  shows "10 powi adjusted x \<le> rnd x \<and> rnd x \<le> 10 powi (adjusted x + 1)"
proof -
  define e where "e = adjusted x - 49"
  define m where "m = round_half_even (x / 10 powi e)"
  have r: "rnd x = of_int m * 10 powi e" using assms by (simp add: rnd_def m_def e_def)
  from scaled_bounds[OF assms] have s: "10 ^ 49 \<le> x / 10 powi e" "x / 10 powi e < 10 ^ 50"
    by (auto simp: e_def)
  have "round_half_even (of_int (10 ^ 49)) \<le> m"
    unfolding m_def using s(1) by (intro rhe_mono) simp
  then have mlo: "10 ^ 49 \<le> m" by (simp only: rhe_of_int)
  have "m \<le> round_half_even (of_int (10 ^ 50))"
    unfolding m_def using s(2) by (intro rhe_mono) simp
  then have mhi: "m \<le> 10 ^ 50" by (simp only: rhe_of_int)
  have p: "(0::real) < 10 powi e" by simp
  have e1: "(10::real) powi adjusted x = 10 ^ 49 * 10 powi e"
    using power_int_add[of "10::real" 49 e] by (simp add: e_def)
  have e2: "(10::real) powi (adjusted x + 1) = 10 ^ 50 * 10 powi e"
    using power_int_add[of "10::real" 50 e] by (simp add: e_def add.commute)
  have a: "(10::real) ^ 49 \<le> of_int m" using mlo by (metis of_int_le_iff of_int_numeral of_int_power)
  have b: "(of_int m :: real) \<le> 10 ^ 50" using mhi by (metis of_int_le_iff of_int_numeral of_int_power)
  have "(10::real) ^ 49 * 10 powi e \<le> of_int m * 10 powi e"
    using a p by (intro mult_right_mono) simp_all
  moreover have "(of_int m :: real) * 10 powi e \<le> 10 ^ 50 * 10 powi e"
    using b p by (intro mult_right_mono) simp_all
  ultimately show ?thesis unfolding r e1 e2 by simp
qed

lemma rnd_pos: "0 < x \<Longrightarrow> 0 < rnd x"
proof -
  assume "0 < x"
  from rnd_pos_bounds[OF this] have "10 powi adjusted x \<le> rnd x" by simp
  moreover have "(0::real) < 10 powi adjusted x" by simp
  ultimately show ?thesis by linarith
qed

lemma rnd_neg: "x < 0 \<Longrightarrow> rnd x < 0"
  using rnd_pos[of "- x"] by (simp add: rnd_minus)

lemma rnd_nonneg: "0 \<le> x \<Longrightarrow> 0 \<le> rnd x"
  using rnd_pos[of x] rnd_zero by (cases "x = 0") (auto simp: less_eq_real_def)

lemma rnd_eq_0_iff: "rnd x = 0 \<longleftrightarrow> x = 0"
  using rnd_pos[of x] rnd_neg[of x] rnd_zero by (cases "x = 0"; cases "0 < x") auto

lemma rnd_pos_iff: "0 < rnd x \<longleftrightarrow> 0 < x"
  using rnd_pos[of x] rnd_neg[of x] rnd_zero by (cases "x = 0"; cases "0 < x") auto




lemma rnd_eval:
  assumes "10 powi a \<le> \<bar>x\<bar>" "\<bar>x\<bar> < 10 powi (a + 1)"
  shows "rnd x = of_int (round_half_even (x / 10 powi (a - 49))) * 10 powi (a - 49)"
proof -
  have "(0::real) < 10 powi a" by simp
  with assms(1) have "0 < \<bar>x\<bar>" by linarith
  then have "x \<noteq> 0" by simp
  then show ?thesis by (simp add: rnd_def adjusted_unique[OF assms])
qed

lemma rnd_exact_pos:
  assumes m: "0 < m" "m < 10 ^ 50"
  shows "rnd (of_int m * 10 powi e) = of_int m * 10 powi e"
proof -
  define x :: real where "x = of_int m * 10 powi e"
  have x0: "0 < x" using m(1) by (simp add: x_def)
  define s where "s = adjusted x - 49"
  define k where "k = e - s"
  have sc: "x / 10 powi s = of_int m * 10 powi k"
    by (simp add: x_def k_def power_int_diff)
  from scaled_bounds[OF x0] have lo: "10 ^ 49 \<le> of_int m * (10::real) powi k"
    unfolding s_def[symmetric] sc by simp
  have mr: "(of_int m :: real) < 10 ^ 50" using m(2)
    by (metis of_int_less_iff of_int_numeral of_int_power)
  have k0: "0 \<le> k"
  proof (rule ccontr)
    assume "\<not> 0 \<le> k"
    then have "k \<le> -1" by simp
    from power_int_10_mono[OF this] have "(10::real) powi k \<le> 1 / 10" by simp
    then have "of_int m * (10::real) powi k \<le> of_int m * (1 / 10)"
      using m(1) by (intro mult_left_mono) simp_all
    also have "\<dots> < 10 ^ 50 * (1 / 10)" using mr by simp
    also have "\<dots> = (10::real) ^ 49" by simp
    finally show False using lo by simp
  qed
  have pk: "(10::real) powi k = of_int (10 ^ nat k)" using k0 by (simp add: power_int_def)
  have "x / 10 powi s = of_int (m * 10 ^ nat k)" unfolding sc pk by simp
  then have "round_half_even (x / 10 powi s) = m * 10 ^ nat k" by (simp only: rhe_of_int)
  then have "rnd x = of_int (m * 10 ^ nat k) * 10 powi s"
    using x0 by (simp add: rnd_def s_def)
  also have "\<dots> = of_int m * (10 powi k * 10 powi s)" unfolding pk by simp
  also have "10 powi k * 10 powi s = (10::real) powi e"
    using power_int_add[of "10::real" k s] by (simp add: k_def)
  finally show ?thesis by (simp add: x_def)
qed

lemma rnd_exact:
  assumes "\<bar>m\<bar> < 10 ^ 50"
  shows "rnd (of_int m * 10 powi e) = of_int m * 10 powi e"
proof -
  consider "m = 0" | "0 < m" | "m < 0" by linarith
  then show ?thesis
  proof cases
    case 1
    then show ?thesis by (simp add: rnd_zero)
  next
    case 2
    then show ?thesis using assms by (intro rnd_exact_pos) simp_all
  next
    case 3
    then have "rnd (of_int (- m) * 10 powi e) = of_int (- m) * 10 powi e"
      using assms by (intro rnd_exact_pos) simp_all
    then have "rnd (- (of_int m * 10 powi e)) = - (of_int m * 10 powi e)" by simp
    then show ?thesis by (simp only: rnd_minus neg_equal_iff_equal)
  qed
qed

lemma rnd_idem_pos:
  assumes "0 < x"
  shows "rnd (rnd x) = rnd x"
proof -
  define e where "e = adjusted x - 49"
  define m where "m = round_half_even (x / 10 powi e)"
  have r: "rnd x = of_int m * 10 powi e" using assms by (simp add: rnd_def m_def e_def)
  from scaled_bounds[OF assms] have s: "10 ^ 49 \<le> x / 10 powi e" "x / 10 powi e < 10 ^ 50"
    by (auto simp: e_def)
  have "round_half_even (of_int (10 ^ 49)) \<le> m"
    unfolding m_def using s(1) by (intro rhe_mono) simp
  then have mlo: "10 ^ 49 \<le> m" by (simp only: rhe_of_int)
  have "m \<le> round_half_even (of_int (10 ^ 50))"
    unfolding m_def using s(2) by (intro rhe_mono) simp
  then have mhi: "m \<le> 10 ^ 50" by (simp only: rhe_of_int)
  show ?thesis
  proof (cases "m = 10 ^ 50")
    case True
    have "rnd x = of_int (10 ^ 49) * 10 powi (e + 1)"
      unfolding r True using power_int_add[of "10::real" e 1] by simp
    moreover have "rnd (of_int (10 ^ 49) * 10 powi (e + 1)) = of_int (10 ^ 49) * 10 powi (e + 1)"
      by (rule rnd_exact) simp
    ultimately show ?thesis by simp
  next
    case False
    then have "\<bar>m\<bar> < 10 ^ 50" using mlo mhi by simp
    from rnd_exact[OF this] show ?thesis unfolding r .
  qed
qed

lemma rnd_idem: "rnd (rnd x) = rnd x"
proof -
  consider "x = 0" | "0 < x" | "x < 0" by linarith
  then show ?thesis
  proof cases
    case 1
    then show ?thesis by (simp add: rnd_zero)
  next
    case 2
    then show ?thesis by (rule rnd_idem_pos)
  next
    case 3
    then have "rnd (rnd (- x)) = rnd (- x)" by (intro rnd_idem_pos) simp
    then show ?thesis by (simp add: rnd_minus)
  qed
qed

lemma rnd_err_pos:
  assumes "0 < x"
  shows "\<bar>rnd x - x\<bar> \<le> x / (2 * 10 ^ 49)"
proof -
  define s :: real where "s = 10 powi (adjusted x - 49)"
  have s0: "0 < s" by (simp add: s_def)
  define y where "y = x / s"
  have r: "rnd x = of_int (round_half_even y) * s" using assms by (simp add: rnd_def s_def y_def)
  have xs: "x = y * s" using s0 by (simp add: y_def)
  from scaled_bounds[OF assms] have ylo: "10 ^ 49 \<le> y" by (simp add: y_def s_def)
  have "\<bar>rnd x - x\<bar> = \<bar>of_int (round_half_even y) - y\<bar> * s"
    unfolding r using s0 by (subst xs) (simp add: abs_mult left_diff_distrib[symmetric])
  also have "\<dots> \<le> (1 / 2) * s" using rhe_err[of y] s0 by (intro mult_right_mono) simp_all
  also have "\<dots> \<le> (1 / 2) * (x / 10 ^ 49)"
  proof -
    have "10 ^ 49 * s \<le> y * s" using ylo s0 by (intro mult_right_mono) simp_all
    then have "s \<le> x / 10 ^ 49" unfolding xs[symmetric] by (simp add: pos_le_divide_eq mult.commute)
    then show ?thesis by simp
  qed
  finally show ?thesis by simp
qed

lemma rnd_of_int: "\<bar>m\<bar> < 10 ^ 50 \<Longrightarrow> rnd (of_int m) = of_int m"
  using rnd_exact[of m 0] by simp

section \<open>Enumeration of positions\<close>

lemma scan_positions_run:
  assumes run: "\<forall>j. k \<le> j \<and> j < k + 5 \<longrightarrow> (\<exists>t p. rd j = Some (t, p) \<and> liquidity p = 0)"
  shows "cc < 5 \<Longrightarrow> (k + 5 \<le> m \<or> (k \<le> m \<and> 5 \<le> cc + (m - k))) \<Longrightarrow>
     set (scan_positions rd m cc acc)
       \<subseteq> set acc \<union> {e. \<exists>j. k + 5 \<le> j \<and> j < m \<and> rd j = Some e \<and> liquidity (snd e) > 0}"
proof (induction m arbitrary: cc acc)
  case 0
  then show ?case by simp
next
  case (Suc i)
  define S where "S = (\<lambda>m. {e. \<exists>j. k + 5 \<le> j \<and> j < m \<and> rd j = Some e \<and> liquidity (snd e) > 0})"
  have mono: "S i \<subseteq> S (Suc i)" unfolding S_def by auto
  have IH: "\<And>cc acc. cc < 5 \<Longrightarrow> k + 5 \<le> i \<or> (k \<le> i \<and> 5 \<le> cc + (i - k)) \<Longrightarrow>
      set (scan_positions rd i cc acc) \<subseteq> set acc \<union> S i"
    using Suc.IH unfolding S_def by blast
  have "set (scan_positions rd (Suc i) cc acc) \<subseteq> set acc \<union> S (Suc i)"
  proof (cases "k + 5 \<le> i")
    case True
    note far = True
    show ?thesis
    proof (cases "rd i")
      case None
      then have "scan_positions rd (Suc i) cc acc = scan_positions rd i cc acc" by simp
      with IH[of cc acc] Suc.prems far mono show ?thesis by auto
    next
      case (Some e)
      obtain t p where e: "e = (t, p)" by (cases e)
      show ?thesis
      proof (cases "liquidity p > 0")
        case True
        have eq: "scan_positions rd (Suc i) cc acc = scan_positions rd i 0 (acc @ [(t, p)])"
          using Some e True by simp
        have "set (scan_positions rd i 0 (acc @ [(t, p)])) \<subseteq> set (acc @ [(t, p)]) \<union> S i"
          using IH[of 0 "acc @ [(t, p)]"] far by simp
        moreover have "(t, p) \<in> S (Suc i)" unfolding S_def using Some e True far by auto
        ultimately show ?thesis unfolding eq using mono by auto
      next
        case False
        show ?thesis
        proof (cases "cc + 1 \<ge> 5")
          case True
          then show ?thesis using Some e False by auto
        next
          case c: False
          have eq: "scan_positions rd (Suc i) cc acc = scan_positions rd i (cc + 1) acc"
            using Some e False c by simp
          have "set (scan_positions rd i (cc + 1) acc) \<subseteq> set acc \<union> S i"
            using IH[of "cc + 1" acc] far c by simp
          then show ?thesis unfolding eq using mono by auto
        qed
      qed
    qed
  next
    case False
    then have zone: "k \<le> i" "i < k + 5" using Suc.prems by auto
    then obtain t p where rd: "rd i = Some (t, p)" "liquidity p = 0" using run by blast
    show ?thesis
    proof (cases "cc + 1 \<ge> 5")
      case True
      then show ?thesis using rd by auto
    next
      case c: False
      have eq: "scan_positions rd (Suc i) cc acc = scan_positions rd i (cc + 1) acc"
        using rd c by simp
      have "5 \<le> (cc + 1) + (i - k)" using Suc.prems False zone by auto
      then have "set (scan_positions rd i (cc + 1) acc) \<subseteq> set acc \<union> S i"
        using IH[of "cc + 1" acc] c zone by simp
      then show ?thesis unfolding eq using mono by auto
    qed
  qed
  then show ?case unfolding S_def .
qed

lemma process_position_ids:
  "process_position ch pc st p = Inr st' \<Longrightarrow>
     pr_token_id ` set (all_positions_data st') \<subseteq> pr_token_id ` set (all_positions_data st) \<union> {fst p}"
  by (auto simp: process_position_def rbind_def Let_def
      split: option.splits sum.splits prod.splits)

lemma positions_loop_ids:
  "positions_loop ch pc st ps = Inr st' \<Longrightarrow>
     pr_token_id ` set (all_positions_data st') \<subseteq> pr_token_id ` set (all_positions_data st) \<union> fst ` set ps"
proof (induction ps arbitrary: st)
  case Nil
  then show ?case by simp
next
  case (Cons p ps)
  then obtain st1 where 1: "process_position ch pc st p = Inr st1"
    and 2: "positions_loop ch pc st1 ps = Inr st'"
    by (auto simp: rbind_def split: sum.splits)
  have a: "pr_token_id ` set (all_positions_data st1)
             \<subseteq> pr_token_id ` set (all_positions_data st) \<union> {fst p}"
    by (rule process_position_ids[OF 1])
  have b: "pr_token_id ` set (all_positions_data st')
             \<subseteq> pr_token_id ` set (all_positions_data st1) \<union> fst ` set ps"
    by (rule Cons.IH[OF 2])
  have "pr_token_id ` set (all_positions_data st')
          \<subseteq> (pr_token_id ` set (all_positions_data st) \<union> {fst p}) \<union> fst ` set ps"
    using a b by (meson Un_mono order_refl subset_trans)
  then show ?case by (simp add: Un_commute Un_left_commute insert_commute)
qed

lemma enumerate_active_run:
  assumes k: "k + 5 \<le> balance"
    and run: "\<forall>j. k \<le> j \<and> j < k + 5 \<longrightarrow>
                (\<exists>t p. position_at ch j = Some (t, p) \<and> liquidity p = 0)"
  shows "set (enumerate_active (position_at ch) balance)
           \<subseteq> {e. \<exists>j. k + 5 \<le> j \<and> j < balance \<and> position_at ch j = Some e \<and> liquidity (snd e) > 0}"
    using scan_positions_run[OF run, of 0 balance "[]"] k by (simp add: enumerate_active_def)

lemma find_and_display_positions_unfold:
  assumes conn: "connected ch" and bal: "balance_of ch = Some balance"
  shows "find_and_display_positions ch =
      (if balance = 0 then Inr (Message ''No positions found for this wallet.'')
       else if enumerate_active (position_at ch) balance = [] then Inr (Message ''No active positions found.'')
       else rbind (positions_loop ch (build_price_cache ch) \<lparr>cache = stored ch, total_portfolio_value = 0, perc = None,
                          all_positions_data = []\<rparr> (enumerate_active (position_at ch) balance))
              (\<lambda>st. Inr (Portfolio
                 \<lparr>pf_total_portfolio_value = fmt_fixed True 2 (total_portfolio_value st),
                  pf_num_active_positions = length (enumerate_active (position_at ch) balance),
                  pf_positions = all_positions_data st\<rparr>)))"
  unfolding find_and_display_positions_def Let_def using conn bal by simp

text \<open>
  Claim C10. The wallet is scanned from the highest index down, and the scan ends for
  good at the fifth consecutive position without liquidity. So whenever five
  consecutive indices \<open>k, \<dots>, k + 4\<close> hold readable positions without liquidity,
  every entry of \<^verbatim>\<open>active_positions\<close> comes from an index of at least \<open>k + 5\<close>:
  an active position below the run is never listed, \<^verbatim>\<open>num_active_positions\<close> is the
  length of that list, and every reported position is one of its entries.
\<close>

theorem closed_run_hides_lower_positions:
  assumes conn: "connected ch" and bal: "balance_of ch = Some balance"
    and k: "k + 5 \<le> balance"
    and run: "\<forall>j. k \<le> j \<and> j < k + 5 \<longrightarrow>
                (\<exists>t p. position_at ch j = Some (t, p) \<and> liquidity p = 0)"
    and rep: "find_and_display_positions ch = Inr (Portfolio r)"
  shows "set (enumerate_active (position_at ch) balance)
           \<subseteq> {e. \<exists>j. k + 5 \<le> j \<and> j < balance \<and> position_at ch j = Some e \<and> liquidity (snd e) > 0}
       \<and> pf_num_active_positions r = length (enumerate_active (position_at ch) balance)
       \<and> pr_token_id ` set (pf_positions r) \<subseteq> fst ` set (enumerate_active (position_at ch) balance)"
proof -
  define act where "act = enumerate_active (position_at ch) balance"
  define st0 where "st0 = \<lparr>cache = stored ch, total_portfolio_value = 0, perc = None,
                          all_positions_data = ([] :: position_report list)\<rparr>"
  from rep obtain st where
    loop: "positions_loop ch (build_price_cache ch) st0 act = Inr st"
    and r: "r = \<lparr>pf_total_portfolio_value = fmt_fixed True 2 (total_portfolio_value st),
                  pf_num_active_positions = length act,
                  pf_positions = all_positions_data st\<rparr>"
    unfolding find_and_display_positions_unfold[OF conn bal] act_def[symmetric] st0_def[symmetric]
    by (cases "positions_loop ch (build_price_cache ch) st0 act")
      (auto simp: rbind_def split: if_splits)
  have "all_positions_data st0 = []" by (simp add: st0_def)
  with positions_loop_ids[OF loop] r enumerate_active_run[OF k run] show ?thesis by (simp add: act_def)
qed

lemma fmt_zero: "fmt_fixed True 2 0 = ''0.00''"
  by (simp add: fmt_fixed_def round_half_even_def str_nat.simps group3.simps pad_zeros_def digit_char_def)

lemma scan_positions_numeral:
  "scan_positions rd (numeral k) cc acc =
     (case rd (pred_numeral k) of
        None \<Rightarrow> scan_positions rd (pred_numeral k) cc acc
      | Some (tid, pos) \<Rightarrow>
          if liquidity pos > 0 then scan_positions rd (pred_numeral k) 0 (acc @ [(tid, pos)])
          else if cc + 1 \<ge> 5 then acc
          else scan_positions rd (pred_numeral k) (cc + 1) acc)"
  by (simp add: numeral_eq_Suc)

lemma enumerate_wallet7: "enumerate_active (position_at wallet7) 7 = [(106, open_pos)]"
proof -
  have l: "liquidity open_pos > 0" "liquidity closed_pos = 0"
    by (simp_all add: open_pos_def closed_pos_def)
  show ?thesis
    by (simp add: enumerate_active_def wallet7_def scan_positions_numeral l)
qed

lemma report_wallet7: "find_and_display_positions wallet7 =
   Inr (Portfolio \<lparr>pf_total_portfolio_value = ''0.00'', pf_num_active_positions = 1, pf_positions = []\<rparr>)"
proof -
  have c: "connected wallet7" "balance_of wallet7 = Some 7" "pool_now wallet7 106 = None"
    by (simp_all add: wallet7_def)
  show ?thesis
    unfolding find_and_display_positions_unfold[OF c(1) c(2)] enumerate_wallet7
    by (simp add: process_position_def c(3) rbind_def fmt_zero)
qed

theorem closed_run_hides_lower_positions_witness:
  "connected wallet7 \<and> balance_of wallet7 = Some 7 \<and> (1::nat) + 5 \<le> 7
   \<and> map (position_at wallet7) [1, 2, 3, 4, 5]
       = [Some (101, closed_pos), Some (102, closed_pos), Some (103, closed_pos),
          Some (104, closed_pos), Some (105, closed_pos)]
   \<and> liquidity closed_pos = 0
   \<and> position_at wallet7 0 = Some (100, open_pos) \<and> liquidity open_pos > 0
   \<and> find_and_display_positions wallet7 =
        Inr (Portfolio \<lparr>pf_total_portfolio_value = ''0.00'', pf_num_active_positions = 1, pf_positions = []\<rparr>)
   \<and> enumerate_active (position_at wallet7) 7 = [(106, open_pos)]
   \<and> (100, open_pos) \<notin> set (enumerate_active (position_at wallet7) 7)"
proof -
  have c: "connected wallet7" "balance_of wallet7 = Some 7" by (simp_all add: wallet7_def)
  have k: "(1::nat) + 5 \<le> 7" by simp
  have run: "\<forall>j. 1 \<le> j \<and> j < 1 + 5 \<longrightarrow> (\<exists>t p. position_at wallet7 j = Some (t, p) \<and> liquidity p = 0)"
    by (simp add: wallet7_def closed_pos_def)
  have p0: "position_at wallet7 0 = Some (100, open_pos)" "liquidity open_pos > 0"
    by (simp_all add: wallet7_def open_pos_def)
  have sub: "set (enumerate_active (position_at wallet7) 7)
          \<subseteq> {e. \<exists>j. 1 + 5 \<le> j \<and> j < 7 \<and> position_at wallet7 j = Some e \<and> 0 < liquidity (snd e)}"
    using closed_run_hides_lower_positions[OF c k run report_wallet7] by (rule conjunct1)
  have notin: "(100, open_pos) \<notin> set (enumerate_active (position_at wallet7) 7)"
  proof
    assume "(100, open_pos) \<in> set (enumerate_active (position_at wallet7) 7)"
    with sub obtain j where "(1::nat) + 5 \<le> j" "j < 7" "position_at wallet7 j = Some (100, open_pos)"
      by auto
    then show False by (simp add: wallet7_def split: if_splits)
  qed
  have reads: "map (position_at wallet7) [1, 2, 3, 4, 5]
       = [Some (101, closed_pos), Some (102, closed_pos), Some (103, closed_pos),
          Some (104, closed_pos), Some (105, closed_pos)]" "liquidity closed_pos = 0"
    by (simp_all add: wallet7_def closed_pos_def)
  show ?thesis
    by (intro conjI) (fact c k reads p0 report_wallet7 enumerate_wallet7 notin)+
qed

section \<open>format\_timedelta\<close>

lemma display_loop_take:
  "length acc < 3 \<Longrightarrow>
     display_loop acc cs = take 3 (acc @ map (\<lambda>(v, u). str_int v @ u) cs)"
proof (induction cs arbitrary: acc)
  case Nil
  then show ?case by simp
next
  case (Cons c cs)
  obtain v u where c: "c = (v, u)" by (cases c)
  show ?case
  proof (cases "length (acc @ [str_int v @ u]) = 3")
    case True
    then show ?thesis using Cons.prems by (simp add: c Let_def)
  next
    case False
    then have "length (acc @ [str_int v @ u]) < 3" using Cons.prems by simp
    from Cons.IH[OF this] False show ?thesis by (simp add: c Let_def)
  qed
qed

lemma time_components_greedy:
  assumes "0 \<le> m"
  shows "\<exists>y mo w d h mi.
           time_components m = [(y, ''y''), (mo, ''mo''), (w, ''w''), (d, ''d''), (h, ''h''), (mi, ''m'')]
         \<and> y * 525600 + mo * 43200 + w * 10080 + d * 1440 + h * 60 + mi = m
         \<and> 0 \<le> y \<and> 0 \<le> mo \<and> 0 \<le> w \<and> 0 \<le> d \<and> 0 \<le> h \<and> 0 \<le> mi
         \<and> mo * 43200 + w * 10080 + d * 1440 + h * 60 + mi < 525600
         \<and> w * 10080 + d * 1440 + h * 60 + mi < 43200
         \<and> d * 1440 + h * 60 + mi < 10080
         \<and> h * 60 + mi < 1440
         \<and> mi < 60"
proof -
  define y where "y = m div 525600"
  define t1 where "t1 = m mod 525600"
  define mo where "mo = t1 div 43200"
  define t2 where "t2 = t1 mod 43200"
  define w where "w = t2 div 10080"
  define t3 where "t3 = t2 mod 10080"
  define d where "d = t3 div 1440"
  define t4 where "t4 = t3 mod 1440"
  define h where "h = t4 div 60"
  define mi where "mi = t4 mod 60"
  have tc: "time_components m = [(y, ''y''), (mo, ''mo''), (w, ''w''), (d, ''d''), (h, ''h''), (mi, ''m'')]"
    by (simp add: time_components_def Let_def y_def t1_def mo_def t2_def w_def t3_def d_def t4_def h_def mi_def)
  have e4: "h * 60 + mi = t4" by (simp add: h_def mi_def)
  have e3: "d * 1440 + t4 = t3" by (simp add: d_def t4_def)
  have e2: "w * 10080 + t3 = t2" by (simp add: w_def t3_def)
  have e1: "mo * 43200 + t2 = t1" by (simp add: mo_def t2_def)
  have e0: "y * 525600 + t1 = m" by (simp add: y_def t1_def)
  have b: "0 \<le> t1" "t1 < 525600" "0 \<le> t2" "t2 < 43200" "0 \<le> t3" "t3 < 10080"
          "0 \<le> t4" "t4 < 1440" "0 \<le> mi" "mi < 60"
    by (simp_all add: t1_def t2_def t3_def t4_def mi_def)
  have n: "0 \<le> y" "0 \<le> mo" "0 \<le> w" "0 \<le> d" "0 \<le> h"
    using assms b by (simp_all add: y_def mo_def w_def d_def h_def pos_imp_zdiv_nonneg_iff)
  show ?thesis
    apply (rule exI[of _ y], rule exI[of _ mo], rule exI[of _ w], rule exI[of _ d],
           rule exI[of _ h], rule exI[of _ mi])
    using tc e0 e1 e2 e3 e4 b n by (intro conjI) linarith+
qed

lemma time_components_nonempty:
  assumes "0 < m"
  shows "filter (\<lambda>(v, u). v > 0) (time_components m) \<noteq> []"
proof -
  from time_components_greedy[of m] assms obtain y mo w d h mi where
    tc: "time_components m = [(y, ''y''), (mo, ''mo''), (w, ''w''), (d, ''d''), (h, ''h''), (mi, ''m'')]"
    and s: "y * 525600 + mo * 43200 + w * 10080 + d * 1440 + h * 60 + mi = m"
    and n: "0 \<le> y" "0 \<le> mo" "0 \<le> w" "0 \<le> d" "0 \<le> h" "0 \<le> mi"
    by (auto simp: less_imp_le)
  have "0 < y \<or> 0 < mo \<or> 0 < w \<or> 0 < d \<or> 0 < h \<or> 0 < mi"
    using s n assms by auto
  then show ?thesis unfolding tc by auto
qed

lemma to_int_nonneg: "0 \<le> x \<Longrightarrow> 0 \<le> to_int x"
  by (simp add: to_int_def)

lemma total_minutes_nonneg: "0 \<le> days \<Longrightarrow> 0 \<le> total_minutes_of days"
  unfolding total_minutes_of_def dmul_def
  by (intro to_int_nonneg rnd_nonneg mult_nonneg_nonneg) simp_all

lemma join_with_Nil_iff: "xs \<noteq> [] \<Longrightarrow> (\<forall>x \<in> set xs. x \<noteq> []) \<Longrightarrow> join_with sep xs \<noteq> []"
  by (induction sep xs rule: join_with.induct) auto

lemma format_timedelta_general:
  assumes "0 \<le> days" "total_minutes_of days \<noteq> 0"
  shows "format_timedelta (Dec days) =
           join_with '' '' (take 3 (map (\<lambda>(v, u). str_int v @ u)
              (filter (\<lambda>(v, u). v > 0) (time_components (total_minutes_of days)))))"
proof -
  have pos: "0 < total_minutes_of days" using total_minutes_nonneg[OF assms(1)] assms(2) by simp
  define cs where "cs = filter (\<lambda>(v, u). v > 0) (time_components (total_minutes_of days))"
  have ne: "cs \<noteq> []" unfolding cs_def using pos by (rule time_components_nonempty)
  have dl: "display_loop [] cs = take 3 (map (\<lambda>(v, u). str_int v @ u) cs)"
    using display_loop_take[of "[]" cs] by simp
  have "take 3 (map (\<lambda>(v, u). str_int v @ u) cs) \<noteq> []" using ne by (cases cs) auto
  then show ?thesis
    using assms by (simp add: format_timedelta_def Let_def cs_def[symmetric] dl not_less)
qed

lemma rnd_numeral: "(numeral n :: int) < 10 ^ 50 \<Longrightarrow> rnd (numeral n) = numeral n"
  using rnd_of_int[of "numeral n"] by simp

lemma total_minutes_400: "total_minutes_of 400 = 576000"
  by (simp add: total_minutes_of_def dmul_def rnd_numeral to_int_def)

lemma format_0: "format_timedelta (Dec 0) = ''<1m''"
  by (simp add: format_timedelta_def total_minutes_of_def dmul_def rnd_zero to_int_def)

lemma format_400: "format_timedelta (Dec 400) = ''1y 1mo 5d''"
  by (simp add: format_timedelta_def total_minutes_400 time_components_def Let_def
      str_int_def str_nat.simps digit_char_def)

text \<open>
  Claim C9. \<^verbatim>\<open>format_timedelta\<close> answers \<^verbatim>\<open>"N/A"\<close> for \<^verbatim>\<open>None\<close>, for a value
  that is not a Decimal and for a Decimal that is not finite; \<^verbatim>\<open>"Met"\<close> for a
  negative value; \<^verbatim>\<open>"<1m"\<close> when the minutes truncate to zero. Otherwise the minutes
  split greedily into years of 365 days, months of 30 days, weeks, days, hours and
  minutes (each remainder is below its unit and the parts add up to the minutes),
  and the result joins with spaces the first three non-zero parts in that order.
  A Decimal 0 gives \<^verbatim>\<open>"<1m"\<close>, -1 gives \<^verbatim>\<open>"Met"\<close>, 400 days give \<^verbatim>\<open>"1y 1mo 5d"\<close>.
\<close>

theorem format_timedelta_cases:
  "format_timedelta PyNone = ''N/A''
   \<and> format_timedelta NotDecimal = ''N/A''
   \<and> format_timedelta NonFinite = ''N/A''
   \<and> (days < 0 \<longrightarrow> format_timedelta (Dec days) = ''Met'')
   \<and> (0 \<le> days \<and> total_minutes_of days = 0 \<longrightarrow> format_timedelta (Dec days) = ''<1m'')
   \<and> (0 \<le> days \<and> total_minutes_of days \<noteq> 0 \<longrightarrow>
        (\<exists>y mo w d h mi.
            y * 525600 + mo * 43200 + w * 10080 + d * 1440 + h * 60 + mi = total_minutes_of days
          \<and> 0 \<le> y \<and> 0 \<le> mo \<and> 0 \<le> w \<and> 0 \<le> d \<and> 0 \<le> h \<and> 0 \<le> mi
          \<and> mo * 43200 + w * 10080 + d * 1440 + h * 60 + mi < 525600
          \<and> w * 10080 + d * 1440 + h * 60 + mi < 43200
          \<and> d * 1440 + h * 60 + mi < 10080
          \<and> h * 60 + mi < 1440
          \<and> mi < 60
          \<and> format_timedelta (Dec days) =
              join_with '' '' (take 3 (map (\<lambda>(v, u). str_int v @ u)
                (filter (\<lambda>(v, u). v > 0)
                  [(y, ''y''), (mo, ''mo''), (w, ''w''), (d, ''d''), (h, ''h''), (mi, ''m'')])))))
   \<and> format_timedelta (Dec 0) = ''<1m''
   \<and> format_timedelta (Dec (- 1)) = ''Met''
   \<and> format_timedelta (Dec 400) = ''1y 1mo 5d''"
proof -
  have a: "format_timedelta PyNone = ''N/A''" "format_timedelta NotDecimal = ''N/A''"
    "format_timedelta NonFinite = ''N/A''"
    by (simp_all add: format_timedelta_def)
  have b: "days < 0 \<longrightarrow> format_timedelta (Dec days) = ''Met''"
    by (simp add: format_timedelta_def)
  have c: "0 \<le> days \<and> total_minutes_of days = 0 \<longrightarrow> format_timedelta (Dec days) = ''<1m''"
    by (simp add: format_timedelta_def)
  have d: "0 \<le> days \<and> total_minutes_of days \<noteq> 0 \<longrightarrow>
        (\<exists>y mo w d h mi.
            y * 525600 + mo * 43200 + w * 10080 + d * 1440 + h * 60 + mi = total_minutes_of days
          \<and> 0 \<le> y \<and> 0 \<le> mo \<and> 0 \<le> w \<and> 0 \<le> d \<and> 0 \<le> h \<and> 0 \<le> mi
          \<and> mo * 43200 + w * 10080 + d * 1440 + h * 60 + mi < 525600
          \<and> w * 10080 + d * 1440 + h * 60 + mi < 43200
          \<and> d * 1440 + h * 60 + mi < 10080
          \<and> h * 60 + mi < 1440
          \<and> mi < 60
          \<and> format_timedelta (Dec days) =
              join_with '' '' (take 3 (map (\<lambda>(v, u). str_int v @ u)
                (filter (\<lambda>(v, u). v > 0)
                  [(y, ''y''), (mo, ''mo''), (w, ''w''), (d, ''d''), (h, ''h''), (mi, ''m'')]))))"
  proof
    assume h: "0 \<le> days \<and> total_minutes_of days \<noteq> 0"
    then have g: "format_timedelta (Dec days) =
           join_with '' '' (take 3 (map (\<lambda>(v, u). str_int v @ u)
              (filter (\<lambda>(v, u). v > 0) (time_components (total_minutes_of days)))))"
      by (intro format_timedelta_general) simp_all
    from time_components_greedy[OF total_minutes_nonneg, of days] h
    obtain y mo w d h mi where
      tc: "time_components (total_minutes_of days)
             = [(y, ''y''), (mo, ''mo''), (w, ''w''), (d, ''d''), (h, ''h''), (mi, ''m'')]"
      and r: "y * 525600 + mo * 43200 + w * 10080 + d * 1440 + h * 60 + mi = total_minutes_of days"
        "0 \<le> y" "0 \<le> mo" "0 \<le> w" "0 \<le> d" "0 \<le> h" "0 \<le> mi"
        "mo * 43200 + w * 10080 + d * 1440 + h * 60 + mi < 525600"
        "w * 10080 + d * 1440 + h * 60 + mi < 43200"
        "d * 1440 + h * 60 + mi < 10080"
        "h * 60 + mi < 1440"
        "mi < 60"
      by blast
    show "\<exists>y mo w d h mi.
            y * 525600 + mo * 43200 + w * 10080 + d * 1440 + h * 60 + mi = total_minutes_of days
          \<and> 0 \<le> y \<and> 0 \<le> mo \<and> 0 \<le> w \<and> 0 \<le> d \<and> 0 \<le> h \<and> 0 \<le> mi
          \<and> mo * 43200 + w * 10080 + d * 1440 + h * 60 + mi < 525600
          \<and> w * 10080 + d * 1440 + h * 60 + mi < 43200
          \<and> d * 1440 + h * 60 + mi < 10080
          \<and> h * 60 + mi < 1440
          \<and> mi < 60
          \<and> format_timedelta (Dec days) =
              join_with '' '' (take 3 (map (\<lambda>(v, u). str_int v @ u)
                (filter (\<lambda>(v, u). v > 0)
                  [(y, ''y''), (mo, ''mo''), (w, ''w''), (d, ''d''), (h, ''h''), (mi, ''m'')])))"
      apply (rule exI[of _ y], rule exI[of _ mo], rule exI[of _ w], rule exI[of _ d],
             rule exI[of _ h], rule exI[of _ mi])
      using r g unfolding tc by (intro conjI)
  qed
  have e: "format_timedelta (Dec (- 1)) = ''Met''" by (simp add: format_timedelta_def)
  from a b c d format_0 e format_400 show ?thesis by (intro conjI)
qed

lemma rnd_dec:
  assumes "\<bar>m\<bar> < 10 ^ 50" "x = of_int m / 10 ^ k"
  shows "rnd x = x"
proof -
  have "x = of_int m * 10 powi (- int k)"
    unfolding assms(2) by (simp add: power_int_minus field_simps)
  then show ?thesis using rnd_exact[OF assms(1), of "- int k"] by simp
qed

lemma total_minutes_181_4: "total_minutes_of (181 / 4) = 65160"
  by (simp add: total_minutes_of_def dmul_def rnd_numeral to_int_def)

lemma format_181_4: "format_timedelta (Dec (181 / 4)) = ''1mo 2w 1d''"
  by (simp add: format_timedelta_def total_minutes_181_4 time_components_def Let_def
      str_int_def str_nat.simps digit_char_def)

theorem format_timedelta_cases_witness:
  "(0::real) \<le> 181 / 4 \<and> total_minutes_of (181 / 4) = 65160
   \<and> (\<exists>y mo w d h mi.
            y * 525600 + mo * 43200 + w * 10080 + d * 1440 + h * 60 + mi = (65160::int)
          \<and> 0 \<le> y \<and> 0 \<le> mo \<and> 0 \<le> w \<and> 0 \<le> d \<and> 0 \<le> h \<and> 0 \<le> mi
          \<and> mo * 43200 + w * 10080 + d * 1440 + h * 60 + mi < 525600
          \<and> w * 10080 + d * 1440 + h * 60 + mi < 43200
          \<and> d * 1440 + h * 60 + mi < 10080
          \<and> h * 60 + mi < 1440
          \<and> mi < 60
          \<and> ''1mo 2w 1d'' =
              join_with '' '' (take 3 (map (\<lambda>(v, u). str_int v @ u)
                (filter (\<lambda>(v, u). v > 0)
                  [(y, ''y''), (mo, ''mo''), (w, ''w''), (d, ''d''), (h, ''h''), (mi, ''m'')]))))
   \<and> format_timedelta (Dec (181 / 4)) = ''1mo 2w 1d''
   \<and> format_timedelta (Dec (- (1 / 2))) = ''Met''
   \<and> format_timedelta (Dec (1 / 2000)) = ''<1m''"
proof -
  have h: "(0::real) \<le> 181 / 4 \<and> total_minutes_of (181 / 4) \<noteq> 0"
    by (simp add: total_minutes_181_4)
  have n: "- (1 / 2) < (0::real)" by simp
  have tz: "total_minutes_of (1 / 2000) = 0"
  proof -
    have r1: "rnd (3 / 250) = 3 / 250" by (rule rnd_dec[of 12 _ 3]) simp_all
    have r2: "rnd (18 / 25) = 18 / 25" by (rule rnd_dec[of 72 _ 2]) simp_all
    show ?thesis by (simp add: total_minutes_of_def dmul_def to_int_def r1 r2)
  qed
  have z: "(0::real) \<le> 1 / 2000 \<and> total_minutes_of (1 / 2000) = 0" using tz by simp
  note t = format_timedelta_cases[of "181 / 4"]
  from t h have ex: "\<exists>y mo w d h mi.
            y * 525600 + mo * 43200 + w * 10080 + d * 1440 + h * 60 + mi = total_minutes_of (181 / 4)
          \<and> 0 \<le> y \<and> 0 \<le> mo \<and> 0 \<le> w \<and> 0 \<le> d \<and> 0 \<le> h \<and> 0 \<le> mi
          \<and> mo * 43200 + w * 10080 + d * 1440 + h * 60 + mi < 525600
          \<and> w * 10080 + d * 1440 + h * 60 + mi < 43200
          \<and> d * 1440 + h * 60 + mi < 10080
          \<and> h * 60 + mi < 1440
          \<and> mi < 60
          \<and> format_timedelta (Dec (181 / 4)) =
              join_with '' '' (take 3 (map (\<lambda>(v, u). str_int v @ u)
                (filter (\<lambda>(v, u). v > 0)
                  [(y, ''y''), (mo, ''mo''), (w, ''w''), (d, ''d''), (h, ''h''), (mi, ''m'')])))"
    by blast
  have m: "format_timedelta (Dec (- (1 / 2))) = ''Met''"
    using format_timedelta_cases[of "- (1 / 2)"] n by blast
  have l: "format_timedelta (Dec (1 / 2000)) = ''<1m''"
    using format_timedelta_cases[of "1 / 2000"] z by blast
  from ex have ex': "\<exists>y mo w d h mi.
            y * 525600 + mo * 43200 + w * 10080 + d * 1440 + h * 60 + mi = (65160::int)
          \<and> 0 \<le> y \<and> 0 \<le> mo \<and> 0 \<le> w \<and> 0 \<le> d \<and> 0 \<le> h \<and> 0 \<le> mi
          \<and> mo * 43200 + w * 10080 + d * 1440 + h * 60 + mi < 525600
          \<and> w * 10080 + d * 1440 + h * 60 + mi < 43200
          \<and> d * 1440 + h * 60 + mi < 10080
          \<and> h * 60 + mi < 1440
          \<and> mi < 60
          \<and> ''1mo 2w 1d'' =
              join_with '' '' (take 3 (map (\<lambda>(v, u). str_int v @ u)
                (filter (\<lambda>(v, u). v > 0)
                  [(y, ''y''), (mo, ''mo''), (w, ''w''), (d, ''d''), (h, ''h''), (mi, ''m'')])))"
    unfolding total_minutes_181_4 format_181_4 .
  have h0: "(0::real) \<le> 181 / 4" by simp
  show ?thesis
    by (intro conjI) (fact h0 total_minutes_181_4 ex' format_181_4 m l)+
qed

section \<open>calculate\_il\_percentage\<close>

lemma rnd_one: "rnd 1 = 1"
  using rnd_of_int[of 1] by simp

lemma dmul_one_left: "dmul 1 (rnd x) = rnd x"
  by (simp add: dmul_def rnd_idem)

lemma dmul_one_dsub: "dmul 1 (dsub a b) = dsub a b"
  by (simp add: dsub_def dmul_one_left)

lemma dmul_pos: "0 < a \<Longrightarrow> 0 < b \<Longrightarrow> 0 < dmul a b"
  by (simp add: dmul_def rnd_pos)

lemma il_amounts_pos:
  assumes "0 < sp" "0 < sl" "0 < su"
  shows "il_amounts p sp pl pu sl su =
     Inr (if p \<le> pl then (ddiv (dsub su sl) (dmul sl su), 0)
          else if pu \<le> p then (0, dsub su sl)
          else (ddiv (dsub su sp) (dmul sp su), dsub sp sl))"
proof -
  have "dmul sl su \<noteq> 0" "dmul sp su \<noteq> 0"
    using dmul_pos[OF assms(2,3)] dmul_pos[OF assms(1,3)] by simp_all
  then show ?thesis
    by (simp add: il_amounts_def ddiv_chk_def rbind_def dmul_one_dsub)
qed

lemma dsqrt_pos: "0 < p \<Longrightarrow> dsqrt p = Inr (rnd (sqrt p)) \<and> 0 < rnd (sqrt p)"
  by (simp add: dsqrt_def rnd_pos)

text \<open>
  Claim C4. \<^verbatim>\<open>calculate_il_percentage\<close> returns 0 when the target price equals the
  entry price or when the lower bound is not below the upper bound. Otherwise, for
  positive prices, it takes the square roots of the four prices, computes the entry
  amounts at the entry price and the target amounts at the target price by the
  three-case decomposition with \<open>L = 1\<close>, values both at the target price, and
  returns 0 when the HODL value is 0 and \<open>|LP / HODL - 1|\<close> otherwise; no
  exception is raised.
\<close>

theorem calculate_il_percentage_cases:
  "(p_target = p_entry \<or> p_upper \<le> p_lower \<longrightarrow>
      calculate_il_percentage p_entry p_target p_lower p_upper = Inr 0)
   \<and> (p_target \<noteq> p_entry \<and> p_lower < p_upper \<and> 0 < p_entry \<and> 0 < p_target \<and> 0 < p_lower \<longrightarrow>
      (let sqrt_entry = rnd (sqrt p_entry);
           sqrt_target = rnd (sqrt p_target);
           sqrt_lower = rnd (sqrt p_lower);
           sqrt_upper = rnd (sqrt p_upper);
           entry =
             (if p_entry \<le> p_lower
              then (ddiv (dsub sqrt_upper sqrt_lower) (dmul sqrt_lower sqrt_upper), 0)
              else if p_upper \<le> p_entry then (0, dsub sqrt_upper sqrt_lower)
              else (ddiv (dsub sqrt_upper sqrt_entry) (dmul sqrt_entry sqrt_upper),
                    dsub sqrt_entry sqrt_lower));
           target =
             (if p_target \<le> p_lower
              then (ddiv (dsub sqrt_upper sqrt_lower) (dmul sqrt_lower sqrt_upper), 0)
              else if p_upper \<le> p_target then (0, dsub sqrt_upper sqrt_lower)
              else (ddiv (dsub sqrt_upper sqrt_target) (dmul sqrt_target sqrt_upper),
                    dsub sqrt_target sqrt_lower));
           hodl_value = dadd (dmul (fst entry) p_target) (snd entry);
           lp_value = dadd (dmul (fst target) p_target) (snd target)
       in calculate_il_percentage p_entry p_target p_lower p_upper =
            Inr (if hodl_value = 0 then 0 else dabs (dsub (ddiv lp_value hodl_value) 1))))"
proof (intro conjI impI)
  assume "p_target = p_entry \<or> p_upper \<le> p_lower"
  then show "calculate_il_percentage p_entry p_target p_lower p_upper = Inr 0"
    by (auto simp: calculate_il_percentage_def)
next
  assume h: "p_target \<noteq> p_entry \<and> p_lower < p_upper \<and> 0 < p_entry \<and> 0 < p_target \<and> 0 < p_lower"
  then have pu: "0 < p_upper" by linarith
  note se = dsqrt_pos[of p_entry] and st = dsqrt_pos[of p_target]
    and sl = dsqrt_pos[of p_lower] and su = dsqrt_pos[OF pu]
  have e: "il_amounts p_entry (rnd (sqrt p_entry)) p_lower p_upper (rnd (sqrt p_lower)) (rnd (sqrt p_upper))
      = Inr (if p_entry \<le> p_lower
              then (ddiv (dsub (rnd (sqrt p_upper)) (rnd (sqrt p_lower))) (dmul (rnd (sqrt p_lower)) (rnd (sqrt p_upper))), 0)
              else if p_upper \<le> p_entry then (0, dsub (rnd (sqrt p_upper)) (rnd (sqrt p_lower)))
              else (ddiv (dsub (rnd (sqrt p_upper)) (rnd (sqrt p_entry))) (dmul (rnd (sqrt p_entry)) (rnd (sqrt p_upper))),
                    dsub (rnd (sqrt p_entry)) (rnd (sqrt p_lower))))"
    using h se sl su by (intro il_amounts_pos) simp_all
  have t: "il_amounts p_target (rnd (sqrt p_target)) p_lower p_upper (rnd (sqrt p_lower)) (rnd (sqrt p_upper))
      = Inr (if p_target \<le> p_lower
              then (ddiv (dsub (rnd (sqrt p_upper)) (rnd (sqrt p_lower))) (dmul (rnd (sqrt p_lower)) (rnd (sqrt p_upper))), 0)
              else if p_upper \<le> p_target then (0, dsub (rnd (sqrt p_upper)) (rnd (sqrt p_lower)))
              else (ddiv (dsub (rnd (sqrt p_upper)) (rnd (sqrt p_target))) (dmul (rnd (sqrt p_target)) (rnd (sqrt p_upper))),
                    dsub (rnd (sqrt p_target)) (rnd (sqrt p_lower))))"
    using h st sl su by (intro il_amounts_pos) simp_all
  have d: "dsqrt p_entry = Inr (rnd (sqrt p_entry))" "dsqrt p_target = Inr (rnd (sqrt p_target))"
    "dsqrt p_lower = Inr (rnd (sqrt p_lower))" "dsqrt p_upper = Inr (rnd (sqrt p_upper))"
    using h se st sl su by simp_all
  have g: "\<not> (p_target = p_entry \<or> p_upper \<le> p_lower)" using h by auto
  show "let sqrt_entry = rnd (sqrt p_entry);
           sqrt_target = rnd (sqrt p_target);
           sqrt_lower = rnd (sqrt p_lower);
           sqrt_upper = rnd (sqrt p_upper);
           entry =
             (if p_entry \<le> p_lower
              then (ddiv (dsub sqrt_upper sqrt_lower) (dmul sqrt_lower sqrt_upper), 0)
              else if p_upper \<le> p_entry then (0, dsub sqrt_upper sqrt_lower)
              else (ddiv (dsub sqrt_upper sqrt_entry) (dmul sqrt_entry sqrt_upper),
                    dsub sqrt_entry sqrt_lower));
           target =
             (if p_target \<le> p_lower
              then (ddiv (dsub sqrt_upper sqrt_lower) (dmul sqrt_lower sqrt_upper), 0)
              else if p_upper \<le> p_target then (0, dsub sqrt_upper sqrt_lower)
              else (ddiv (dsub sqrt_upper sqrt_target) (dmul sqrt_target sqrt_upper),
                    dsub sqrt_target sqrt_lower));
           hodl_value = dadd (dmul (fst entry) p_target) (snd entry);
           lp_value = dadd (dmul (fst target) p_target) (snd target)
       in calculate_il_percentage p_entry p_target p_lower p_upper =
            Inr (if hodl_value = 0 then 0 else dabs (dsub (ddiv lp_value hodl_value) 1))"
    unfolding Let_def calculate_il_percentage_def
    apply (simp only: g if_False d rbind_def sum.case e t)
    apply (simp add: Let_def split: prod.splits)
    done
qed

lemma rnd_half: "rnd (1 / 2) = 1 / 2"
  using rnd_exact[of 5 "- 1"] by simp

theorem calculate_il_percentage_cases_witness:
  "calculate_il_percentage 1 4 1 4 = Inr (1 / 2)
   \<and> calculate_il_percentage 3 3 1 4 = Inr 0
   \<and> calculate_il_percentage 1 4 5 5 = Inr 0"
proof -
  have h: "(4::real) \<noteq> 1 \<and> (1::real) < 4 \<and> (0::real) < 1 \<and> (0::real) < 4 \<and> (0::real) < 1"
    by simp
  have s: "sqrt 1 = 1" "sqrt 4 = 2" by simp_all
  have a: "calculate_il_percentage 1 4 1 4 = Inr (1 / 2)"
    using calculate_il_percentage_cases[where p_entry = 1 and p_target = 4
        and p_lower = 1 and p_upper = 4] h
    by (simp add: Let_def s rnd_one rnd_numeral rnd_zero rnd_half rnd_minus
        ddiv_def dsub_def dmul_def dadd_def dabs_def)
  have b: "calculate_il_percentage 3 3 1 4 = Inr 0"
    using calculate_il_percentage_cases[where p_entry = 3 and p_target = 3
        and p_lower = 1 and p_upper = 4] by simp
  have c: "calculate_il_percentage 1 4 5 5 = Inr 0"
    using calculate_il_percentage_cases[where p_entry = 1 and p_target = 4
        and p_lower = 5 and p_upper = 5] by simp
  from a b c show ?thesis by (intro conjI)
qed

section \<open>tick\_to\_price and calculate\_token\_amounts\<close>

lemma float_1_0001_gt_1: "1 < float_1_0001"
  by (simp add: float_1_0001_def)

lemma dpow_base_pos: "0 < dpow float_1_0001 y"
  using float_1_0001_gt_1 by (simp add: dpow_def rnd_pos)







lemma dmul_zero_left: "dmul 0 x = 0"
  by (simp add: dmul_def rnd_zero)



lemma rnd_cert:
  assumes "10 powi (e + 49) \<le> \<bar>x\<bar>" "\<bar>x\<bar> < 10 powi (e + 50)"
    and "\<bar>x / 10 powi e - of_int m\<bar> < 1 / 2"
  shows "rnd x = of_int m * 10 powi e"
proof -
  have a: "\<bar>x\<bar> < 10 powi (e + 49 + 1)" using assms(2) by (simp add: add.commute add.left_commute)
  have "rnd x = of_int (round_half_even (x / 10 powi (e + 49 - 49))) * 10 powi (e + 49 - 49)"
    by (rule rnd_eval[OF assms(1) a])
  then show ?thesis using rhe_near[OF assms(3)] by simp
qed

lemma rnd_cert_div:
  assumes "10 ^ 49 \<le> \<bar>x\<bar> * 10 ^ k" "\<bar>x\<bar> * 10 ^ k < 10 ^ 50"
    and "\<bar>x * 10 ^ k - of_int m\<bar> < 1 / 2"
  shows "rnd x = of_int m / 10 ^ k"
proof -
  have p: "(10::real) powi (- int k) = 1 / 10 ^ k"
    by (simp only: power_int_minus power_int_of_nat inverse_eq_divide)
  have q: "(10::real) powi (- int k + 49) = 10 ^ 49 / 10 ^ k"
    using power_int_add[of "10::real" "- int k" 49] p by simp
  have q': "(10::real) powi (- int k + 50) = 10 ^ 50 / 10 ^ k"
    using power_int_add[of "10::real" "- int k" 50] p by simp
  have 1: "10 powi (- int k + 49) \<le> \<bar>x\<bar>"
    unfolding q using assms(1) by (simp add: pos_divide_le_eq)
  have 2: "\<bar>x\<bar> < 10 powi (- int k + 50)"
    unfolding q' using assms(2) by (simp add: pos_less_divide_eq)
  have 3: "\<bar>x / 10 powi (- int k) - of_int m\<bar> < 1 / 2"
    unfolding p using assms(3) by simp
  from rnd_cert[OF 1 2 3] show ?thesis unfolding p by simp
qed



lemma rnd_dec_eq:
  assumes "\<bar>m\<bar> < 10 ^ 50" "x = of_int m / 10 ^ k" "y = of_int m / 10 ^ k"
  shows "rnd x = y"
  using rnd_dec[OF assms(1,2)] assms(2,3) by simp


lemma tick_to_price_same_decimals:
  "tick_to_price tick d d = rnd (float_1_0001 powr of_int tick)"
  by (simp add: tick_to_price_def dpow_def dmul_def rnd_one rnd_idem)

lemma float_base_ratio:
  "float_1_0001 = (10001 / 10000) * (45040499873332330000 / 45040499873332330496)"
  by (simp add: float_1_0001_def)

text \<open>
  Claim C1. \<^verbatim>\<open>tick_to_price\<close> is to match \<open>1.0001^tick\<close> to 50 significant digits.
  The function raises \<^verbatim>\<open>Decimal(1.0001)\<close>, the binary double nearest to 1.0001, to the
  tick; with equal decimal scales its result differs from \<open>1.0001^tick\<close> by at least
  one part in \<open>10^17\<close> for every non-zero tick, so it agrees with \<open>1.0001^tick\<close> in fewer
  than 18 significant digits.
\<close>

theorem tick_to_price_off_base:
  assumes "tick \<noteq> 0"
  shows "(10001 / 10000) powr of_int tick / 10 ^ 17
           \<le> \<bar>tick_to_price tick d d - (10001 / 10000) powr of_int tick\<bar>"
proof -
  define c :: real where "c = 10001 / 10000"
  define r :: real where "r = 45040499873332330000 / 45040499873332330496"
  define t :: real where "t = of_int tick"
  define C where "C = c powr t"
  define X where "X = float_1_0001 powr t"
  have C0: "0 < C" by (simp add: C_def c_def)
  have r01: "0 < r" "r < 1" by (simp_all add: r_def)
  have c0: "0 \<le> c" by (simp add: c_def)
  have "float_1_0001 = c * r" unfolding c_def r_def by (rule float_base_ratio)
  then have X: "X = C * r powr t"
    unfolding X_def C_def using powr_mult[of c r t] by simp
  have X0: "0 < X" unfolding X using C0 r01 by simp
  have err: "\<bar>rnd X - X\<bar> \<le> X / (2 * 10 ^ 49)" using X0 by (rule rnd_err_pos)
  have p: "tick_to_price tick d d = rnd X"
    by (simp add: tick_to_price_same_decimals X_def t_def)
  consider "1 \<le> tick" | "tick \<le> - 1" using assms by linarith
  then have "C / 10 ^ 17 \<le> \<bar>rnd X - C\<bar>"
  proof cases
    case 1
    then have "1 \<le> t" by (simp add: t_def)
    then have "r powr t \<le> r powr 1" using r01 by (intro powr_mono') simp_all
    then have rt: "r powr t \<le> r" using r01 by simp
    have "rnd X \<le> X + X / (2 * 10 ^ 49)" using err by linarith
    also have "\<dots> = X * (1 + 1 / (2 * 10 ^ 49))" by (simp add: algebra_simps)
    also have "\<dots> \<le> (C * r) * (1 + 1 / (2 * 10 ^ 49))"
      unfolding X using rt C0 by (intro mult_right_mono mult_left_mono) simp_all
    also have "\<dots> = C * (r * (1 + 1 / (2 * 10 ^ 49)))" by simp
    also have "\<dots> \<le> C * (1 - 1 / 10 ^ 17)"
      using C0 by (intro mult_left_mono) (simp_all add: r_def)
    finally have "rnd X \<le> C - C / 10 ^ 17" by (simp add: algebra_simps)
    then show ?thesis using C0 by (simp add: abs_le_iff)
  next
    case 2
    then have "t \<le> - 1" by (simp add: t_def)
    then have "r powr (- 1) \<le> r powr t" using r01 by (intro powr_mono') simp_all
    then have rt: "1 / r \<le> r powr t" using r01 by (simp add: powr_minus_divide)
    have "C * ((1 / r) * (1 - 1 / (2 * 10 ^ 49))) = (C * (1 / r)) * (1 - 1 / (2 * 10 ^ 49))"
      by simp
    also have "\<dots> \<le> X * (1 - 1 / (2 * 10 ^ 49))"
      unfolding X using rt C0 by (intro mult_right_mono mult_left_mono) simp_all
    also have "\<dots> = X - X / (2 * 10 ^ 49)" by (simp add: algebra_simps)
    also have "\<dots> \<le> rnd X" using err by linarith
    finally have a: "C * ((1 / r) * (1 - 1 / (2 * 10 ^ 49))) \<le> rnd X" .
    have "C * (1 + 1 / 10 ^ 17) \<le> C * ((1 / r) * (1 - 1 / (2 * 10 ^ 49)))"
      using C0 by (intro mult_left_mono) (simp_all add: r_def)
    with a have "C + C / 10 ^ 17 \<le> rnd X" by (simp add: algebra_simps)
    then show ?thesis using C0 by (simp add: abs_le_iff)
  qed
  then show ?thesis unfolding p C_def c_def t_def .
qed

theorem tick_to_price_off_base_witness:
  "tick_to_price 1 8 8 = 10000999999999999889865875957184471189975738525391 / 10 ^ 49
   \<and> (10001 / 10000) powr of_int 1 / 10 ^ 17
        \<le> \<bar>tick_to_price 1 8 8 - (10001 / 10000) powr of_int 1\<bar>
   \<and> (10001 / 10000) powr of_int 887272 / 10 ^ 17
        \<le> \<bar>tick_to_price 887272 8 8 - (10001 / 10000) powr of_int 887272\<bar>
   \<and> (10001 / 10000) powr of_int (- 887272) / 10 ^ 17
        \<le> \<bar>tick_to_price (- 887272) 8 8 - (10001 / 10000) powr of_int (- 887272)\<bar>
   \<and> tick_to_price 0 8 8 = 1"
proof -
  have "rnd (4504049987333233 / 4503599627370496)
          = of_int 10000999999999999889865875957184471189975738525391 / 10 ^ 49"
    by (rule rnd_cert_div) simp_all
  then have a: "tick_to_price 1 8 8 = 10000999999999999889865875957184471189975738525391 / 10 ^ 49"
    by (simp add: tick_to_price_same_decimals float_1_0001_def)
  have b: "(10001 / 10000) powr of_int 1 / 10 ^ 17
        \<le> \<bar>tick_to_price 1 8 8 - (10001 / 10000) powr of_int 1\<bar>"
    by (rule tick_to_price_off_base) simp
  have c: "(10001 / 10000) powr of_int 887272 / 10 ^ 17
        \<le> \<bar>tick_to_price 887272 8 8 - (10001 / 10000) powr of_int 887272\<bar>"
    by (rule tick_to_price_off_base) simp
  have d: "(10001 / 10000) powr of_int (- 887272) / 10 ^ 17
        \<le> \<bar>tick_to_price (- 887272) 8 8 - (10001 / 10000) powr of_int (- 887272)\<bar>"
    by (rule tick_to_price_off_base) simp
  have e: "tick_to_price 0 8 8 = 1"
    using float_1_0001_gt_1 by (simp add: tick_to_price_same_decimals rnd_one)
  from a b c d e show ?thesis by (intro conjI)
qed

section \<open>Rewards\<close>

lemma ddiv_zero_left: "ddiv 0 y = 0"
  by (simp add: ddiv_def rnd_zero)

text \<open>
  Claim C8. Every reward with a resolved (non-zero) price is credited its nominal
  USD value \<open>raw / 10^decimals \<times> price\<close>, halved when the symbol is xSHADOW and in
  full otherwise; the value shown in the rewards list and the value added to
  \<^verbatim>\<open>total_rewards_usd\<close> are the same credited value. A reward without a price shows
  0 and adds nothing.
\<close>

theorem rewards_loop_credits:
  "rewards_loop tok pc ems rd total0 =
     (rd @ map (\<lambda>(a, n).
               \<lparr>rw_amount = format_amount (int n) (decimals (tok a)),
                rw_symbol = symbol (tok a),
                rw_usd_value = fmt_fixed True 2
                  (case pc (symbol (tok a)) of
                     Some p \<Rightarrow> if p \<noteq> 0 then spec_credited_usd (tok a) p n else 0
                   | None \<Rightarrow> 0)\<rparr>) ems,
      foldl (\<lambda>t (a, n).
               case pc (symbol (tok a)) of
                 Some p \<Rightarrow> if p \<noteq> 0 then dadd t (spec_credited_usd (tok a) p n) else t
               | None \<Rightarrow> t) total0 ems)"
proof (induction ems arbitrary: rd total0)
  case Nil
  show ?case by simp
next
  case (Cons e ems)
  obtain a n where e: "e = (a, n)" by (cases e)
  show ?case
    unfolding e
    by (simp add: Cons.IH Let_def reward_usd_value_def reward_shown_def reward_credit_def
        truthy_def spec_credited_usd_def ddiv_zero_left split: option.splits)
qed

lemma fmt_3: "fmt_fixed True 2 3 = ''3.00''"
  by (simp add: fmt_fixed_def round_half_even_def str_nat.simps group3.simps pad_zeros_def digit_char_def)

lemma fmt_6: "fmt_fixed True 2 6 = ''6.00''"
  by (simp add: fmt_fixed_def round_half_even_def str_nat.simps group3.simps pad_zeros_def digit_char_def)

lemma fmt_amount_2: "format_amount 2000000000000000000 18 = ''2.00''"
  by (simp add: format_amount_def ddiv_def rnd_numeral float_0_0001_def
      fmt_fixed_def round_half_even_def str_nat.simps group3.simps pad_zeros_def digit_char_def)

theorem rewards_loop_credits_witness:
  "rewards_loop example_tok example_prices
     [(''0x5050'', 2000000000000000000), (''0x3333'', 2000000000000000000)] [] 0 =
     ([\<lparr>rw_amount = ''2.00'', rw_symbol = ''xSHADOW'', rw_usd_value = ''3.00''\<rparr>,
       \<lparr>rw_amount = ''2.00'', rw_symbol = ''SHADOW'', rw_usd_value = ''6.00''\<rparr>], 9)"
proof -
  have x: "spec_credited_usd (example_tok ''0x5050'') 3 2000000000000000000 = 3"
    by (simp add: spec_credited_usd_def example_tok_def ddiv_def dmul_def rnd_numeral)
  have s: "spec_credited_usd (example_tok ''0x3333'') 3 2000000000000000000 = 6"
    by (simp add: spec_credited_usd_def example_tok_def ddiv_def dmul_def rnd_numeral)
  have p: "example_prices ''xSHADOW'' = Some 3" "example_prices ''SHADOW'' = Some 3"
    by (simp_all add: example_prices_def)
  have t: "symbol (example_tok ''0x5050'') = ''xSHADOW''" "symbol (example_tok ''0x3333'') = ''SHADOW''"
    "decimals (example_tok ''0x5050'') = 18" "decimals (example_tok ''0x3333'') = 18"
    by (simp_all add: example_tok_def)
  show ?thesis
    unfolding rewards_loop_credits
    by (simp add: p x s t fmt_3 fmt_6 fmt_amount_2 dadd_def rnd_numeral)
qed

section \<open>Annualised yield\<close>

lemma ddiv_pos: "0 < a \<Longrightarrow> 0 < b \<Longrightarrow> 0 < ddiv a b"
  by (simp add: ddiv_def rnd_pos)

lemma ddiv_pos_iff: "0 < b \<Longrightarrow> 0 < ddiv a b \<longleftrightarrow> 0 < a"
  by (simp add: ddiv_def rnd_pos_iff zero_less_divide_iff)

lemma apr_block_stamp:
  assumes "b_date info = Stamp t" "0 < v" "0 < secs"
  shows "apr_block info secs v r =
     \<lparr>annualized_apr = dmul (ddiv (ddiv r v) (ddiv (ddiv secs 86400) 365)) 100,
      days_active = ddiv secs 86400,
      daily_projected_usd_earnings =
        ddiv (dmul v (ddiv (dmul (ddiv (ddiv r v) (ddiv (ddiv secs 86400) 365)) 100) 100)) 365,
      annual_projected_usd_earnings =
        dmul v (ddiv (dmul (ddiv (ddiv r v) (ddiv (ddiv secs 86400) 365)) 100) 100)\<rparr>"
proof -
  have d: "0 < ddiv secs 86400" using assms(3) by (intro ddiv_pos) simp_all
  have "0 < ddiv (ddiv secs 86400) 365" using ddiv_pos[OF d, of 365] by simp
  then have n: "ddiv (ddiv secs 86400) 365 \<noteq> 0" by simp
  show ?thesis using assms d n by (simp add: apr_block_def Let_def)
qed

lemma apr_block_zero:
  assumes "v \<le> 0 \<or> secs \<le> 0"
  shows "annualized_apr (apr_block info secs v r) = 0
       \<and> daily_projected_usd_earnings (apr_block info secs v r) = 0
       \<and> annual_projected_usd_earnings (apr_block info secs v r) = 0"
proof -
  have "\<not> (0 < v \<and> 0 < ddiv secs 86400)"
    using assms ddiv_pos_iff[of 86400 secs] by auto
  then show ?thesis
    by (cases "b_date info") (auto simp: apr_block_def Let_def)
qed

lemma apr_example:
  "apr_block example_baseline 864000 1000 10 =
     \<lparr>annualized_apr = 36500000000000000000000000000000000000000000000001 / 10 ^ 48,
      days_active = 10,
      daily_projected_usd_earnings = 1,
      annual_projected_usd_earnings = 36500000000000000000000000000000000000000000000001 / 10 ^ 47\<rparr>"
proof -
  have s: "b_date example_baseline = Stamp 0" by (simp add: example_baseline_def)
  have d: "ddiv 864000 86400 = 10" by (simp add: ddiv_def rnd_numeral)
  have x1: "ddiv 10 1000 = 1 / 100"
    unfolding ddiv_def by (rule rnd_dec_eq[where m = 1 and k = 2]) simp_all
  have "rnd (10 / 365) = of_int 27397260273972602739726027397260273972602739726027 / 10 ^ 51"
    by (rule rnd_cert_div) simp_all
  then have x2: "ddiv 10 365 = 27397260273972602739726027397260273972602739726027 / 10 ^ 51"
    by (simp add: ddiv_def)
  have "rnd ((1 / 100) / (27397260273972602739726027397260273972602739726027 / 10 ^ 51))
          = of_int 36500000000000000000000000000000000000000000000001 / 10 ^ 50"
    by (rule rnd_cert_div) simp_all
  then have x3: "ddiv (1 / 100) (27397260273972602739726027397260273972602739726027 / 10 ^ 51)
          = 36500000000000000000000000000000000000000000000001 / 10 ^ 50"
    by (simp add: ddiv_def)
  have x4: "dmul (36500000000000000000000000000000000000000000000001 / 10 ^ 50) 100
          = 36500000000000000000000000000000000000000000000001 / 10 ^ 48"
    unfolding dmul_def
    by (rule rnd_dec_eq[where m = 36500000000000000000000000000000000000000000000001 and k = 48])
       simp_all
  have x5: "ddiv (36500000000000000000000000000000000000000000000001 / 10 ^ 48) 100
          = 36500000000000000000000000000000000000000000000001 / 10 ^ 50"
    unfolding ddiv_def
    by (rule rnd_dec_eq[where m = 36500000000000000000000000000000000000000000000001 and k = 50])
       simp_all
  have x6: "dmul 1000 (36500000000000000000000000000000000000000000000001 / 10 ^ 50)
          = 36500000000000000000000000000000000000000000000001 / 10 ^ 47"
    unfolding dmul_def
    by (rule rnd_dec_eq[where m = 36500000000000000000000000000000000000000000000001 and k = 47])
       simp_all
  have "rnd ((36500000000000000000000000000000000000000000000001 / 10 ^ 47) / 365)
          = of_int (10 ^ 49) / 10 ^ 49"
    by (rule rnd_cert_div) simp_all
  then have x7: "ddiv (36500000000000000000000000000000000000000000000001 / 10 ^ 47) 365 = 1"
    by (simp add: ddiv_def)
  show ?thesis
    unfolding apr_block_stamp[OF s, of 1000 864000 10, simplified] d x1 x2 x3 x4 x5 x6 x7 ..
qed

lemma apr_example_value:
  "annualized_apr (apr_block example_baseline 864000 1000 10) = 365 / 10 + 1 / 10 ^ 48"
  unfolding apr_example by simp

lemma apr_example_shown:
  "fmt_fixed True 2 (annualized_apr (apr_block example_baseline 864000 1000 10)) @ ''%'' = ''36.50%''"
  unfolding apr_example
  by (simp add: fmt_fixed_def round_half_even_def str_nat.simps group3.simps pad_zeros_def
      digit_char_def)

text \<open>
  The APR computed for a value of 1000, rewards of 10 and 10 elapsed days is not
  exactly 36.5: the quotient \<open>10 / 365\<close> is rounded before it divides.
\<close>

theorem apr_example_not_exact:
  "annualized_apr (apr_block example_baseline 864000 1000 10) \<noteq> 365 / 10"
  unfolding apr_example by simp

text \<open>
  Claim C5, as amended. The APR, the daily and the annual projection are 0 when
  the baseline is a freshly captured "current" snapshot, when the position value
  is not positive and when the elapsed time is not positive. For a baseline with a
  well-formed date, a positive value and a positive elapsed time,
  \<open>APR = (rewards / value) / (days / 365) \<times> 100\<close>, \<open>annual = value \<times> (APR / 100)\<close> and
  \<open>daily = annual / 365\<close>, every operation rounded to 50 significant digits. For a
  value of 1000, rewards of 10 and 10 days this is \<open>36.5 + 10^-48\<close>, reported as
  \<^verbatim>\<open>"36.50%"\<close>.
\<close>

theorem apr_block_cases:
  "(b_date info = Current t \<longrightarrow>
      apr_block info secs v r =
        \<lparr>annualized_apr = 0, days_active = 0,
         daily_projected_usd_earnings = 0, annual_projected_usd_earnings = 0\<rparr>)
   \<and> (v \<le> 0 \<or> secs \<le> 0 \<longrightarrow>
        annualized_apr (apr_block info secs v r) = 0
      \<and> daily_projected_usd_earnings (apr_block info secs v r) = 0
      \<and> annual_projected_usd_earnings (apr_block info secs v r) = 0)
   \<and> (b_date info = Stamp t \<and> 0 < v \<and> 0 < secs \<longrightarrow>
        (let days = ddiv secs 86400;
             apr = dmul (ddiv (ddiv r v) (ddiv days 365)) 100;
             annual = dmul v (ddiv apr 100)
         in apr_block info secs v r =
              \<lparr>annualized_apr = apr, days_active = days,
               daily_projected_usd_earnings = ddiv annual 365,
               annual_projected_usd_earnings = annual\<rparr>))
   \<and> annualized_apr (apr_block example_baseline 864000 1000 10) = 365 / 10 + 1 / 10 ^ 48
   \<and> fmt_fixed True 2 (annualized_apr (apr_block example_baseline 864000 1000 10)) @ ''%''
        = ''36.50%''"
proof -
  have a: "b_date info = Current t \<longrightarrow>
      apr_block info secs v r =
        \<lparr>annualized_apr = 0, days_active = 0,
         daily_projected_usd_earnings = 0, annual_projected_usd_earnings = 0\<rparr>"
    by (simp add: apr_block_def)
  have b: "v \<le> 0 \<or> secs \<le> 0 \<longrightarrow>
        annualized_apr (apr_block info secs v r) = 0
      \<and> daily_projected_usd_earnings (apr_block info secs v r) = 0
      \<and> annual_projected_usd_earnings (apr_block info secs v r) = 0"
    using apr_block_zero[of v secs info r] by blast
  have c: "b_date info = Stamp t \<and> 0 < v \<and> 0 < secs \<longrightarrow>
        (let days = ddiv secs 86400;
             apr = dmul (ddiv (ddiv r v) (ddiv days 365)) 100;
             annual = dmul v (ddiv apr 100)
         in apr_block info secs v r =
              \<lparr>annualized_apr = apr, days_active = days,
               daily_projected_usd_earnings = ddiv annual 365,
               annual_projected_usd_earnings = annual\<rparr>)"
    using apr_block_stamp[of info t v secs r] by (simp add: Let_def)
  from a b c apr_example_value apr_example_shown show ?thesis by (intro conjI)
qed

theorem apr_block_cases_witness:
  "apr_block example_baseline 864000 1000 10 =
     \<lparr>annualized_apr = 36500000000000000000000000000000000000000000000001 / 10 ^ 48,
      days_active = 10,
      daily_projected_usd_earnings = 1,
      annual_projected_usd_earnings = 36500000000000000000000000000000000000000000000001 / 10 ^ 47\<rparr>
   \<and> annualized_apr (apr_block example_baseline 864000 0 10) = 0
   \<and> apr_block (example_baseline\<lparr>b_date := Current 0\<rparr>) 864000 1000 10 =
        \<lparr>annualized_apr = 0, days_active = 0,
         daily_projected_usd_earnings = 0, annual_projected_usd_earnings = 0\<rparr>"
proof -
  have s: "b_date example_baseline = Stamp 0 \<and> (0::real) < 1000 \<and> (0::real) < 864000"
    by (simp add: example_baseline_def)
  from apr_block_cases[of example_baseline 0 864000 1000 10] s
  have "let days = ddiv 864000 86400;
             apr = dmul (ddiv (ddiv 10 1000) (ddiv days 365)) 100;
             annual = dmul 1000 (ddiv apr 100)
         in apr_block example_baseline 864000 1000 10 =
              \<lparr>annualized_apr = apr, days_active = days,
               daily_projected_usd_earnings = ddiv annual 365,
               annual_projected_usd_earnings = annual\<rparr>"
    by blast
  then have a: "apr_block example_baseline 864000 1000 10 =
     \<lparr>annualized_apr = 36500000000000000000000000000000000000000000000001 / 10 ^ 48,
      days_active = 10,
      daily_projected_usd_earnings = 1,
      annual_projected_usd_earnings = 36500000000000000000000000000000000000000000000001 / 10 ^ 47\<rparr>"
    using apr_example by simp
  have b: "annualized_apr (apr_block example_baseline 864000 0 10) = 0"
    using apr_block_cases[of example_baseline 0 864000 0 10] by simp
  have "b_date (example_baseline\<lparr>b_date := Current 0\<rparr>) = Current 0" by simp
  with apr_block_cases[of "example_baseline\<lparr>b_date := Current 0\<rparr>" 0 864000 1000 10]
  have c: "apr_block (example_baseline\<lparr>b_date := Current 0\<rparr>) 864000 1000 10 =
        \<lparr>annualized_apr = 0, days_active = 0,
         daily_projected_usd_earnings = 0, annual_projected_usd_earnings = 0\<rparr>"
    by blast
  from a b c show ?thesis by (intro conjI)
qed

section \<open>Breakeven estimate\<close>

lemma calculate_il_percentage_total:
  assumes "0 < pe" "0 < pt" "0 < pl" "0 < pu"
  shows "\<exists>x. calculate_il_percentage pe pt pl pu = Inr x \<and> 0 \<le> x"
proof (cases "pt = pe \<or> pu \<le> pl")
  case True
  then show ?thesis by (auto simp: calculate_il_percentage_def)
next
  case False
  note se = dsqrt_pos[OF assms(1)] and st = dsqrt_pos[OF assms(2)]
    and sl = dsqrt_pos[OF assms(3)] and su = dsqrt_pos[OF assms(4)]
  have e: "\<exists>a b. il_amounts pe (rnd (sqrt pe)) pl pu (rnd (sqrt pl)) (rnd (sqrt pu)) = Inr (a, b)"
    using il_amounts_pos[of "rnd (sqrt pe)" "rnd (sqrt pl)" "rnd (sqrt pu)" pe pl pu] se sl su
    by auto
  have t: "\<exists>a b. il_amounts pt (rnd (sqrt pt)) pl pu (rnd (sqrt pl)) (rnd (sqrt pu)) = Inr (a, b)"
    using il_amounts_pos[of "rnd (sqrt pt)" "rnd (sqrt pl)" "rnd (sqrt pu)" pt pl pu] st sl su
    by auto
  from e t obtain a b c d where
    e': "il_amounts pe (rnd (sqrt pe)) pl pu (rnd (sqrt pl)) (rnd (sqrt pu)) = Inr (a, b)"
    and t': "il_amounts pt (rnd (sqrt pt)) pl pu (rnd (sqrt pl)) (rnd (sqrt pu)) = Inr (c, d)"
    by blast
  have n: "0 \<le> dabs y" for y by (simp add: dabs_def rnd_nonneg)
  show ?thesis
    using False se st sl su
    by (simp add: calculate_il_percentage_def rbind_def e' t' Let_def n)
qed

lemma str_nat_head: "str_nat n \<noteq> [] \<and> hd (str_nat n) \<in> set ''0123456789''"
proof (induction n rule: str_nat.induct)
  case (1 n)
  show ?case
  proof (cases "n < 10")
    case True
    then have "n \<in> {0,1,2,3,4,5,6,7,8,9}" by auto
    then show ?thesis by (subst (1 2) str_nat.simps) (auto simp: digit_char_def)
  next
    case False
    with 1 show ?thesis by (subst (1 2) str_nat.simps) simp
  qed
qed

lemma join_with_hd: "xs \<noteq> [] \<Longrightarrow> hd xs \<noteq> [] \<Longrightarrow> hd (join_with sep xs) = hd (hd xs)"
  by (induction sep xs rule: join_with.induct) auto

lemma format_timedelta_not_Met:
  assumes "0 \<le> x"
  shows "format_timedelta (Dec x) \<noteq> ''Met''"
proof (cases "total_minutes_of x = 0")
  case True
  then show ?thesis using assms by (simp add: format_timedelta_def)
next
  case False
  define cs where "cs = filter (\<lambda>(v, u). v > 0) (time_components (total_minutes_of x))"
  have pos: "0 < total_minutes_of x" using total_minutes_nonneg[OF assms] False by simp
  have ne: "cs \<noteq> []" unfolding cs_def using pos by (rule time_components_nonempty)
  then obtain v u rest where c: "cs = (v, u) # rest" by (cases cs) auto
  have "(v, u) \<in> set cs" by (simp add: c)
  then have v: "0 < v" by (auto simp: cs_def)
  have f: "format_timedelta (Dec x) =
      join_with '' '' (take 3 (map (\<lambda>(v, u). str_int v @ u) cs))"
    unfolding cs_def using assms False by (rule format_timedelta_general)
  have t: "take 3 (map (\<lambda>(v, u). str_int v @ u) cs)
             = (str_nat (nat v) @ u) # take 2 (map (\<lambda>(v, u). str_int v @ u) rest)"
    using v by (simp add: c str_int_def)
  have "hd (format_timedelta (Dec x)) = hd (str_nat (nat v))"
    unfolding f t using str_nat_head[of "nat v"] by (subst join_with_hd) simp_all
  then have "hd (format_timedelta (Dec x)) \<in> set ''0123456789''"
    using str_nat_head[of "nat v"] by simp
  then show ?thesis by auto
qed

lemma format_timedelta_Met_iff: "format_timedelta (Dec x) = ''Met'' \<longleftrightarrow> x < 0"
  using format_timedelta_not_Met[of x] by (auto simp: format_timedelta_def)

lemma breakeven_str_cases:
  "breakeven_str d tr =
     (if d \<le> 0 then ''N/A''
      else if tr < 0 then format_timedelta (Dec d) @ '' (Met)''
      else format_timedelta (Dec d) @ '' ('' @ format_timedelta (Dec tr) @ '' left)'')"
  by (simp add: breakeven_str_def Let_def format_timedelta_Met_iff not_less)

lemma days_to_breakeven_cases:
  assumes "0 < v"
  shows "days_to_breakeven_of apr (daily_rewards_usd_of v apr) il =
     (if 0 < ddiv (dmul v (ddiv apr 100)) 365 \<and> 0 < il
      then ddiv il (ddiv (dmul v (ddiv apr 100)) 365) else 0)"
proof -
  have "0 < ddiv (dmul v (ddiv apr 100)) 365 \<longleftrightarrow> 0 < apr"
    using assms by (simp add: ddiv_def dmul_def rnd_pos_iff zero_less_divide_iff zero_less_mult_iff)
  then show ?thesis
    by (auto simp: days_to_breakeven_of_def daily_rewards_usd_of_def)
qed

text \<open>
  Claim C7. Inside the impermanent-loss block, for positive prices and a positive
  position value, the computation completes without an error. For each range bound
  the days to breakeven are \<open>il_usd / daily_rewards_usd\<close> when the daily reward and the
  loss in USD at that bound are both positive, and 0 otherwise; the time remaining is
  the days to breakeven minus the age of the position. The breakeven string is
  \<^verbatim>\<open>"N/A"\<close> whenever the days to breakeven are not positive; otherwise it is the total
  time followed by \<^verbatim>\<open>"(Met)"\<close> when the remaining time is negative, and by the remaining
  time and \<^verbatim>\<open>"left"\<close> when it is not. This string is the one the report shows.
\<close>

theorem breakeven_cases:
  assumes "0 < initial_price" "0 < price_lower" "0 < price_upper" "0 < current_price"
    and "0 < position_usd_value"
  shows "\<exists>v. il_compute dec0 dec1 info initial_price position_usd_value apr total_rewards_usd
               price_lower price_upper current_price = Inr v
     \<and> daily_rewards_usd v =
         (if 0 < annualized_apr apr
          then ddiv (dmul position_usd_value (ddiv (annualized_apr apr) 100)) 365 else 0)
     \<and> days_to_breakeven_lower v =
         (if 0 < ddiv (dmul position_usd_value (ddiv (annualized_apr apr) 100)) 365
             \<and> 0 < il_usd_lower v
          then ddiv (il_usd_lower v)
                 (ddiv (dmul position_usd_value (ddiv (annualized_apr apr) 100)) 365)
          else 0)
     \<and> days_to_breakeven_upper v =
         (if 0 < ddiv (dmul position_usd_value (ddiv (annualized_apr apr) 100)) 365
             \<and> 0 < il_usd_upper v
          then ddiv (il_usd_upper v)
                 (ddiv (dmul position_usd_value (ddiv (annualized_apr apr) 100)) 365)
          else 0)
     \<and> time_remaining_lower v = dsub (days_to_breakeven_lower v) (days_active apr)
     \<and> time_remaining_upper v = dsub (days_to_breakeven_upper v) (days_active apr)
     \<and> breakeven_lower_str v =
         (if days_to_breakeven_lower v \<le> 0 then ''N/A''
          else if time_remaining_lower v < 0
            then format_timedelta (Dec (days_to_breakeven_lower v)) @ '' (Met)''
          else format_timedelta (Dec (days_to_breakeven_lower v)) @ '' (''
                 @ format_timedelta (Dec (time_remaining_lower v)) @ '' left)'')
     \<and> breakeven_upper_str v =
         (if days_to_breakeven_upper v \<le> 0 then ''N/A''
          else if time_remaining_upper v < 0
            then format_timedelta (Dec (days_to_breakeven_upper v)) @ '' (Met)''
          else format_timedelta (Dec (days_to_breakeven_upper v)) @ '' (''
                 @ format_timedelta (Dec (time_remaining_upper v)) @ '' left)'')
     \<and> bi_breakeven_time (lower_bound (il_render v price_lower price_upper (days_active apr)))
         = breakeven_lower_str v
     \<and> bi_breakeven_time (upper_bound (il_render v price_lower price_upper (days_active apr)))
         = breakeven_upper_str v"
proof -
  from calculate_il_percentage_total[OF assms(1) assms(2) assms(2) assms(3)]
  obtain xl where xl: "calculate_il_percentage initial_price price_lower price_lower price_upper = Inr xl"
    by blast
  from calculate_il_percentage_total[OF assms(1) assms(3) assms(2) assms(3)]
  obtain xu where xu: "calculate_il_percentage initial_price price_upper price_lower price_upper = Inr xu"
    by blast
  from calculate_il_percentage_total[OF assms(1) assms(4) assms(2) assms(3)]
  obtain xc where xc: "calculate_il_percentage initial_price current_price price_lower price_upper = Inr xc"
    by blast
  have eq: "\<exists>v. il_compute dec0 dec1 info initial_price position_usd_value apr total_rewards_usd
               price_lower price_upper current_price = Inr v
     \<and> daily_rewards_usd v = daily_rewards_usd_of position_usd_value (annualized_apr apr)
     \<and> days_to_breakeven_lower v =
         days_to_breakeven_of (annualized_apr apr)
           (daily_rewards_usd_of position_usd_value (annualized_apr apr)) (il_usd_lower v)
     \<and> days_to_breakeven_upper v =
         days_to_breakeven_of (annualized_apr apr)
           (daily_rewards_usd_of position_usd_value (annualized_apr apr)) (il_usd_upper v)
     \<and> time_remaining_lower v = dsub (days_to_breakeven_lower v) (days_active apr)
     \<and> time_remaining_upper v = dsub (days_to_breakeven_upper v) (days_active apr)
     \<and> breakeven_lower_str v = breakeven_str (days_to_breakeven_lower v) (time_remaining_lower v)
     \<and> breakeven_upper_str v = breakeven_str (days_to_breakeven_upper v) (time_remaining_upper v)"
    unfolding il_compute_def xl xu xc rbind_def Let_def by simp
  then obtain v where v:
    "il_compute dec0 dec1 info initial_price position_usd_value apr total_rewards_usd
               price_lower price_upper current_price = Inr v"
    "daily_rewards_usd v = daily_rewards_usd_of position_usd_value (annualized_apr apr)"
    "days_to_breakeven_lower v =
         days_to_breakeven_of (annualized_apr apr)
           (daily_rewards_usd_of position_usd_value (annualized_apr apr)) (il_usd_lower v)"
    "days_to_breakeven_upper v =
         days_to_breakeven_of (annualized_apr apr)
           (daily_rewards_usd_of position_usd_value (annualized_apr apr)) (il_usd_upper v)"
    "time_remaining_lower v = dsub (days_to_breakeven_lower v) (days_active apr)"
    "time_remaining_upper v = dsub (days_to_breakeven_upper v) (days_active apr)"
    "breakeven_lower_str v = breakeven_str (days_to_breakeven_lower v) (time_remaining_lower v)"
    "breakeven_upper_str v = breakeven_str (days_to_breakeven_upper v) (time_remaining_upper v)"
    by blast
  have d: "daily_rewards_usd v =
         (if 0 < annualized_apr apr
          then ddiv (dmul position_usd_value (ddiv (annualized_apr apr) 100)) 365 else 0)"
    unfolding v(2) daily_rewards_usd_of_def by simp
  note l = v(3)[unfolded days_to_breakeven_cases[OF assms(5)]]
  note u = v(4)[unfolded days_to_breakeven_cases[OF assms(5)]]
  note ls = v(7)[unfolded breakeven_str_cases]
  note us = v(8)[unfolded breakeven_str_cases]
  have r: "bi_breakeven_time (lower_bound (il_render v price_lower price_upper (days_active apr)))
         = breakeven_lower_str v"
     "bi_breakeven_time (upper_bound (il_render v price_lower price_upper (days_active apr)))
         = breakeven_upper_str v"
    by (simp_all add: il_render_def)
  show ?thesis
    apply (rule exI[of _ v])
    apply (intro conjI)
    apply (rule v(1))
    apply (rule d)
    apply (rule l)
    apply (rule u)
    apply (rule v(5))
    apply (rule v(6))
    apply (rule ls)
    apply (rule us)
    apply (rule r(1))
    apply (rule r(2))
    done
qed

lemma il_4_1: "calculate_il_percentage 4 1 1 4 = Inr (1 / 2)"
proof -
  have s: "sqrt 1 = 1" "sqrt 4 = 2" by simp_all
  show ?thesis
    by (simp add: calculate_il_percentage_def il_amounts_def dsqrt_def ddiv_chk_def rbind_def
        Let_def s rnd_one rnd_numeral rnd_zero rnd_half rnd_minus
        ddiv_def dsub_def dmul_def dadd_def dabs_def)
qed

lemma il_4_4: "calculate_il_percentage 4 4 1 4 = Inr 0"
  by (simp add: calculate_il_percentage_def)

lemma total_minutes_1: "total_minutes_of 1 = 1440"
  by (simp add: total_minutes_of_def dmul_def rnd_numeral to_int_def)

lemma total_minutes_half: "total_minutes_of (1 / 2) = 720"
  by (simp add: total_minutes_of_def dmul_def rnd_numeral to_int_def)

lemma format_1: "format_timedelta (Dec 1) = ''1d''"
  by (simp add: format_timedelta_def total_minutes_1 time_components_def Let_def
      str_int_def str_nat.simps digit_char_def)

lemma format_half: "format_timedelta (Dec (1 / 2)) = ''12h''"
  by (simp add: format_timedelta_def total_minutes_half time_components_def Let_def
      str_int_def str_nat.simps digit_char_def)

lemma breakeven_daily: "ddiv (dmul 1000 (ddiv (73 / 2) 100)) 365 = 1"
proof -
  have a: "rnd (73 / 200) = 73 / 200" by (rule rnd_dec[of 365 _ 3]) simp_all
  show ?thesis by (simp add: ddiv_def dmul_def a rnd_numeral rnd_one)
qed

lemma breakeven_il_usd:
  assumes "il_compute 8 6 breakeven_baseline 4 1000 breakeven_apr 10 1 4 4 = Inr v"
  shows "il_usd_lower v = 1" "il_usd_upper v = 0"
proof -
  have v: "Inr v = il_compute 8 6 breakeven_baseline 4 1000 breakeven_apr 10 1 4 4"
    using assms by simp
  have h: "rnd (2000000 / 10 ^ 6) = 2" using rnd_numeral[of "num.Bit0 num.One"] by simp
  have e: "il_usd_lower v = 1 \<and> il_usd_upper v = 0"
    using v unfolding il_compute_def il_4_1 il_4_4 rbind_def Let_def
    by (auto simp add: breakeven_baseline_def ddiv_def dmul_def dadd_def rnd_zero h rnd_numeral rnd_one)
  then show "il_usd_lower v = 1" "il_usd_upper v = 0" by simp_all
qed

theorem breakeven_cases_witness:
  "(0::real) < 4 \<and> (0::real) < 1 \<and> (0::real) < 1000
   \<and> (\<exists>v. il_compute 8 6 breakeven_baseline 4 1000 breakeven_apr 10 1 4 4 = Inr v
        \<and> daily_rewards_usd v = 1
        \<and> il_usd_lower v = 1
        \<and> days_to_breakeven_lower v = 1
        \<and> time_remaining_lower v = 1 / 2
        \<and> breakeven_lower_str v = ''1d (12h left)''
        \<and> il_usd_upper v = 0
        \<and> days_to_breakeven_upper v = 0
        \<and> time_remaining_upper v = - (1 / 2)
        \<and> breakeven_upper_str v = ''N/A'')"
proof -
  have p: "(0::real) < 4" "(0::real) < 1" "(0::real) < 1000" by simp_all
  from breakeven_cases[OF p(1) p(2) p(1) p(1) p(3), of 8 6 breakeven_baseline breakeven_apr 10]
  obtain v where v: "il_compute 8 6 breakeven_baseline 4 1000 breakeven_apr 10 1 4 4 = Inr v"
    and d: "daily_rewards_usd v =
         (if 0 < annualized_apr breakeven_apr
          then ddiv (dmul 1000 (ddiv (annualized_apr breakeven_apr) 100)) 365 else 0)"
    and l: "days_to_breakeven_lower v =
         (if 0 < ddiv (dmul 1000 (ddiv (annualized_apr breakeven_apr) 100)) 365
             \<and> 0 < il_usd_lower v
          then ddiv (il_usd_lower v)
                 (ddiv (dmul 1000 (ddiv (annualized_apr breakeven_apr) 100)) 365)
          else 0)"
    and u: "days_to_breakeven_upper v =
         (if 0 < ddiv (dmul 1000 (ddiv (annualized_apr breakeven_apr) 100)) 365
             \<and> 0 < il_usd_upper v
          then ddiv (il_usd_upper v)
                 (ddiv (dmul 1000 (ddiv (annualized_apr breakeven_apr) 100)) 365)
          else 0)"
    and tl: "time_remaining_lower v = dsub (days_to_breakeven_lower v) (days_active breakeven_apr)"
    and tu: "time_remaining_upper v = dsub (days_to_breakeven_upper v) (days_active breakeven_apr)"
    and sl: "breakeven_lower_str v =
         (if days_to_breakeven_lower v \<le> 0 then ''N/A''
          else if time_remaining_lower v < 0
            then format_timedelta (Dec (days_to_breakeven_lower v)) @ '' (Met)''
          else format_timedelta (Dec (days_to_breakeven_lower v)) @ '' (''
                 @ format_timedelta (Dec (time_remaining_lower v)) @ '' left)'')"
    and su: "breakeven_upper_str v =
         (if days_to_breakeven_upper v \<le> 0 then ''N/A''
          else if time_remaining_upper v < 0
            then format_timedelta (Dec (days_to_breakeven_upper v)) @ '' (Met)''
          else format_timedelta (Dec (days_to_breakeven_upper v)) @ '' (''
                 @ format_timedelta (Dec (time_remaining_upper v)) @ '' left)'')"
    by blast
  have a: "annualized_apr breakeven_apr = 73 / 2" "days_active breakeven_apr = 1 / 2"
    by (simp_all add: breakeven_apr_def)
  note il = breakeven_il_usd[OF v]
  have d': "daily_rewards_usd v = 1" using d by (simp add: a breakeven_daily)
  have l': "days_to_breakeven_lower v = 1"
    using l unfolding a breakeven_daily il by (simp add: ddiv_def rnd_one)
  have u': "days_to_breakeven_upper v = 0"
    using u unfolding a breakeven_daily il by simp
  have tl': "time_remaining_lower v = 1 / 2"
    using tl by (simp add: l' a dsub_def rnd_half)
  have tu': "time_remaining_upper v = - (1 / 2)"
    using tu rnd_minus[of "1 / 2"] by (simp add: u' a dsub_def rnd_half)
  have sl': "breakeven_lower_str v = ''1d (12h left)''"
    using sl by (simp add: l' tl' format_1 format_half)
  have su': "breakeven_upper_str v = ''N/A''"
    using su by (simp add: u')
  have "\<exists>v. il_compute 8 6 breakeven_baseline 4 1000 breakeven_apr 10 1 4 4 = Inr v
        \<and> daily_rewards_usd v = 1
        \<and> il_usd_lower v = 1
        \<and> days_to_breakeven_lower v = 1
        \<and> time_remaining_lower v = 1 / 2
        \<and> breakeven_lower_str v = ''1d (12h left)''
        \<and> il_usd_upper v = 0
        \<and> days_to_breakeven_upper v = 0
        \<and> time_remaining_upper v = - (1 / 2)
        \<and> breakeven_upper_str v = ''N/A''"
    apply (rule exI[of _ v])
    apply (intro conjI)
    apply (fact v d' il l' tl' sl' u' tu' su')+
    done
  with p show ?thesis by (intro conjI)
qed

section \<open>A baseline captured in the same report\<close>

lemma reward_credit_rounded:
  "rnd t = t \<Longrightarrow> rnd (reward_credit info p u t) = reward_credit info p u t"
  by (simp add: reward_credit_def dadd_def rnd_idem)

lemma rewards_loop_rounded:
  "rnd t = t \<Longrightarrow> rnd (snd (rewards_loop tok pc ems rd t)) = snd (rewards_loop tok pc ems rd t)"
proof (induction ems arbitrary: rd t)
  case Nil
  then show ?case by simp
next
  case (Cons e ems)
  obtain a n where e: "e = (a, n)" by (cases e)
  show ?case
    unfolding e by (simp add: Let_def Cons.IH[OF reward_credit_rounded[OF Cons.prems]])
qed

lemma fmt_percent_zero: "fmt_percent 0 = ''0.00%''"
  by (simp add: fmt_percent_def fmt_fixed_def round_half_even_def str_nat.simps
      pad_zeros_def digit_char_def)

lemma il_block_Some:
  assumes "il_block dec0 dec1 info position_usd_value apr total_rewards_usd
             price_lower price_upper current_price = Some v"
  shows "il_compute dec0 dec1 info (initial_price_val_of info) position_usd_value apr
           total_rewards_usd price_lower price_upper current_price = Inr v"
    and "0 < initial_price_val_of info" "0 < position_usd_value" "0 < days_active apr"
  using assms by (auto simp: il_block_def split: if_splits sum.splits)

lemma il_compute_at_entry:
  assumes "il_compute dec0 dec1 info p position_usd_value apr total_rewards_usd
             price_lower price_upper p = Inr v"
  shows "il_perc_current v = 0" "il_usd_current v = 0"
    "net_gain_loss v = rnd total_rewards_usd"
proof -
  have c: "calculate_il_percentage p p price_lower price_upper = Inr 0"
    by (simp add: calculate_il_percentage_def)
  have "il_perc_current v = 0 \<and> il_usd_current v = 0 \<and> net_gain_loss v = rnd total_rewards_usd"
    using assms unfolding il_compute_def c Let_def
    by (auto simp: rbind_def dmul_zero_left dsub_def split: sum.splits)
  then show "il_perc_current v = 0" "il_usd_current v = 0"
    "net_gain_loss v = rnd total_rewards_usd" by simp_all
qed

text \<open>
  A baseline captured in the same report at the current price 4: no time has
  elapsed, the impermanent-loss block is not entered and \<^verbatim>\<open>il_data\<close> stays empty.
\<close>

theorem fresh_baseline_no_il_data:
  "initial_price_val_of fresh_baseline = 4
   \<and> days_active (apr_block fresh_baseline 0 1000 9) = 0
   \<and> il_block 8 6 fresh_baseline 1000 (apr_block fresh_baseline 0 1000 9) 9 1 4 4 = None"
  by (simp add: fresh_baseline_def initial_price_val_of_def apr_block_def il_block_def)

text \<open>
  Claim C6, as amended. For a baseline captured in the same report (its date marked
  as current) the elapsed time is 0, the impermanent-loss block is not entered and
  the impermanent-loss data of the report is empty. Whenever the block does produce
  its data for a baseline whose entry price equals the current price, the
  impermanent loss at the current price is 0, shown as \<^verbatim>\<open>"0.00"\<close> and \<^verbatim>\<open>"0.00%"\<close>, and
  the net gain or loss equals the total rewards in USD.
\<close>

theorem fresh_baseline_il:
  "(b_date info = Current t \<longrightarrow>
      days_active (apr_block info secs position_usd_value total_rewards_usd) = 0
      \<and> il_block dec0 dec1 info position_usd_value
            (apr_block info secs position_usd_value total_rewards_usd) total_rewards_usd
            price_lower price_upper current_price = None)
   \<and> (initial_price_val_of info = current_price
      \<and> total_rewards_usd = snd (rewards_loop tok price_cache ems [] 0)
      \<and> il_block dec0 dec1 info position_usd_value apr total_rewards_usd
            price_lower price_upper current_price = Some v \<longrightarrow>
        il_perc_current v = 0 \<and> il_usd_current v = 0
        \<and> net_gain_loss v = total_rewards_usd
        \<and> cur_il_perc (il_render v price_lower price_upper (days_active apr)) = ''0.00%''
        \<and> cur_il_usd (il_render v price_lower price_upper (days_active apr)) = ''0.00''
        \<and> cur_net_gain_loss (il_render v price_lower price_upper (days_active apr))
            = fmt_fixed True 2 total_rewards_usd)"
proof (intro conjI impI)
  assume d: "b_date info = Current t"
  show "days_active (apr_block info secs position_usd_value total_rewards_usd) = 0"
    using d by (simp add: apr_block_def)
  then show "il_block dec0 dec1 info position_usd_value
            (apr_block info secs position_usd_value total_rewards_usd) total_rewards_usd
            price_lower price_upper current_price = None"
    by (simp add: il_block_def)
next
  assume a: "initial_price_val_of info = current_price
      \<and> total_rewards_usd = snd (rewards_loop tok price_cache ems [] 0)
      \<and> il_block dec0 dec1 info position_usd_value apr total_rewards_usd
            price_lower price_upper current_price = Some v"
  then have a1: "initial_price_val_of info = current_price"
    and a2: "total_rewards_usd = snd (rewards_loop tok price_cache ems [] 0)"
    and a3: "il_block dec0 dec1 info position_usd_value apr total_rewards_usd
            price_lower price_upper current_price = Some v"
    by blast+
  have c: "il_compute dec0 dec1 info current_price position_usd_value apr
           total_rewards_usd price_lower price_upper current_price = Inr v"
    using il_block_Some(1)[OF a3] unfolding a1 .
  have r: "rnd total_rewards_usd = total_rewards_usd"
    unfolding a2 by (rule rewards_loop_rounded[OF rnd_zero])
  note e = il_compute_at_entry[OF c]
  show p: "il_perc_current v = 0" by (rule e(1))
  show u: "il_usd_current v = 0" by (rule e(2))
  show n: "net_gain_loss v = total_rewards_usd" using e(3) r by simp
  show "cur_il_perc (il_render v price_lower price_upper (days_active apr)) = ''0.00%''"
    by (simp add: il_render_def p fmt_percent_zero)
  show "cur_il_usd (il_render v price_lower price_upper (days_active apr)) = ''0.00''"
    by (simp add: il_render_def u fmt_zero)
  show "cur_net_gain_loss (il_render v price_lower price_upper (days_active apr))
            = fmt_fixed True 2 total_rewards_usd"
    by (simp add: il_render_def n)
qed

lemma il_compute_total:
  assumes "0 < initial_price" "0 < price_lower" "0 < price_upper" "0 < current_price"
  shows "\<exists>v. il_compute dec0 dec1 info initial_price position_usd_value apr total_rewards_usd
               price_lower price_upper current_price = Inr v"
proof -
  from calculate_il_percentage_total[OF assms(1) assms(2) assms(2) assms(3)]
  obtain xl where xl: "calculate_il_percentage initial_price price_lower price_lower price_upper = Inr xl"
    by blast
  from calculate_il_percentage_total[OF assms(1) assms(3) assms(2) assms(3)]
  obtain xu where xu: "calculate_il_percentage initial_price price_upper price_lower price_upper = Inr xu"
    by blast
  from calculate_il_percentage_total[OF assms(1) assms(4) assms(2) assms(3)]
  obtain xc where xc: "calculate_il_percentage initial_price current_price price_lower price_upper = Inr xc"
    by blast
  show ?thesis
    unfolding il_compute_def xl xu xc rbind_def Let_def by simp
qed

lemma il_block_total:
  assumes "0 < initial_price_val_of info" "0 < position_usd_value" "0 < days_active apr"
    and "0 < price_lower" "0 < price_upper" "0 < current_price"
  shows "\<exists>v. il_block dec0 dec1 info position_usd_value apr total_rewards_usd
               price_lower price_upper current_price = Some v"
proof -
  from il_compute_total[OF assms(1) assms(4) assms(5) assms(6)]
  obtain v where "il_compute dec0 dec1 info (initial_price_val_of info) position_usd_value apr
      total_rewards_usd price_lower price_upper current_price = Inr v"
    by blast
  then show ?thesis using assms(1-3) by (simp add: il_block_def)
qed

lemma fmt_9: "fmt_fixed True 2 9 = ''9.00''"
  by (simp add: fmt_fixed_def round_half_even_def str_nat.simps group3.simps pad_zeros_def digit_char_def)

lemma rewards_total_example:
  "snd (rewards_loop example_tok example_prices
     [(''0x5050'', 2000000000000000000), (''0x3333'', 2000000000000000000)] [] 0) = 9"
  by (simp add: Let_def reward_credit_def reward_usd_value_def truthy_def example_tok_def
      example_prices_def ddiv_def dmul_def dadd_def rnd_numeral)

theorem fresh_baseline_il_witness:
  "b_date fresh_baseline = Current 0
   \<and> days_active (apr_block fresh_baseline 0 1000 9) = 0
   \<and> il_block 8 6 fresh_baseline 1000 (apr_block fresh_baseline 0 1000 9) 9 1 4 4 = None
   \<and> initial_price_val_of breakeven_baseline = 4
   \<and> snd (rewards_loop example_tok example_prices
        [(''0x5050'', 2000000000000000000), (''0x3333'', 2000000000000000000)] [] 0) = 9
   \<and> (\<exists>v. il_block 8 6 breakeven_baseline 1000 breakeven_apr 9 1 4 4 = Some v
        \<and> il_perc_current v = 0 \<and> il_usd_current v = 0 \<and> net_gain_loss v = 9
        \<and> cur_il_perc (il_render v 1 4 (1 / 2)) = ''0.00%''
        \<and> cur_il_usd (il_render v 1 4 (1 / 2)) = ''0.00''
        \<and> cur_net_gain_loss (il_render v 1 4 (1 / 2)) = ''9.00'')"
proof -
  have d: "b_date fresh_baseline = Current 0" by (simp add: fresh_baseline_def)
  have p: "initial_price_val_of breakeven_baseline = 4"
    by (simp add: breakeven_baseline_def initial_price_val_of_def)
  have a: "days_active breakeven_apr = 1 / 2" by (simp add: breakeven_apr_def)
  have "\<exists>v. il_block 8 6 breakeven_baseline 1000 breakeven_apr 9 1 4 4 = Some v"
    by (rule il_block_total) (simp_all add: p a)
  then obtain v where v: "il_block 8 6 breakeven_baseline 1000 breakeven_apr 9 1 4 4 = Some v"
    by blast
  note t1 = fresh_baseline_il[where info = fresh_baseline and t = 0 and secs = 0
      and position_usd_value = 1000 and total_rewards_usd = 9 and ?dec0.0 = 8 and ?dec1.0 = 6
      and price_lower = 1 and price_upper = 4 and current_price = 4,
      THEN conjunct1, rule_format, OF d]
  note t2 = fresh_baseline_il[where info = breakeven_baseline and total_rewards_usd = 9
      and current_price = 4 and tok = example_tok and price_cache = example_prices
      and ems = "[(''0x5050'', 2000000000000000000), (''0x3333'', 2000000000000000000)]"
      and ?dec0.0 = 8 and ?dec1.0 = 6 and position_usd_value = 1000 and apr = breakeven_apr
      and price_lower = 1 and price_upper = 4 and v = v,
      THEN conjunct2, rule_format,
      OF conjI[OF p conjI[OF rewards_total_example[symmetric] v]]]
  have "\<exists>v. il_block 8 6 breakeven_baseline 1000 breakeven_apr 9 1 4 4 = Some v
        \<and> il_perc_current v = 0 \<and> il_usd_current v = 0 \<and> net_gain_loss v = 9
        \<and> cur_il_perc (il_render v 1 4 (1 / 2)) = ''0.00%''
        \<and> cur_il_usd (il_render v 1 4 (1 / 2)) = ''0.00''
        \<and> cur_net_gain_loss (il_render v 1 4 (1 / 2)) = ''9.00''"
    using v t2 by (simp add: a fmt_9)
  with d t1 p rewards_total_example show ?thesis by (intro conjI) simp_all
qed

section \<open>Failures of a single position\<close>

lemma calculate_token_amounts_total:
  "\<exists>a b. calculate_token_amounts liq cur lower_tick upper_tick = Inr (a, b)"
proof -
  define sl where "sl = dpow float_1_0001 (ddiv (of_int lower_tick) 2)"
  define su where "su = dpow float_1_0001 (ddiv (of_int upper_tick) 2)"
  have sl: "0 < sl" and su: "0 < su" unfolding sl_def su_def by (rule dpow_base_pos)+
  have d1: "dmul sl su \<noteq> 0" using dmul_pos[OF sl su] by simp
  have d2: "sl < cur \<Longrightarrow> dmul cur su \<noteq> 0"
  proof -
    assume "sl < cur"
    then have "0 < cur" using sl by linarith
    from dmul_pos[OF this su] show ?thesis by simp
  qed
  show ?thesis
    unfolding calculate_token_amounts_def Let_def sl_def[symmetric] su_def[symmetric]
    using d1 d2 by (auto simp: ddiv_chk_def rbind_def)
qed

lemma capture_baseline_gap:
  assumes "c tid = None" "creation_of ch tid = Some ci" "pool_then ch tid = None"
  shows "capture_baseline ch c tid pos dec0 dec1 amount0 amount1 current_price = Inr c"
  using assms by (simp add: capture_baseline_def)

lemma capture_baseline_fresh:
  assumes "c tid = None" "creation_of ch tid = None"
  shows "capture_baseline ch c tid pos dec0 dec1 amount0 amount1 current_price =
     Inr (c(tid \<mapsto> \<lparr>b_date = Current (clock ch tid), b_block = None,
               b_amount0 = amount0, b_amount1 = amount1, b_price = Some current_price\<rparr>))"
  using assms by (simp add: capture_baseline_def)

lemma process_position_history_gap:
  assumes "cache st tid = None" "pool_now ch tid = Some p"
    and "creation_of ch tid = Some ci" "pool_then ch tid = None"
  shows "process_position ch pc st (tid, pos) = Inl KeyError"
proof -
  obtain a b where ab: "calculate_token_amounts (liquidity pos) (sqrt_price p)
      (tickLower pos) (tickUpper pos) = Inr (a, b)"
    using calculate_token_amounts_total by blast
  show ?thesis
    unfolding process_position_def Let_def
    by (simp add: assms ab rbind_def capture_baseline_gap[of "cache st" tid ch ci, OF assms(1) assms(3) assms(4)])
qed

lemma process_position_unbound:
  assumes "cache st tid = None" "pool_now ch tid = Some p"
    and "creation_of ch tid = None" "perc st = None"
  shows "process_position ch pc st (tid, pos) = Inl UnboundLocalError"
proof -
  obtain a b where ab: "calculate_token_amounts (liquidity pos) (sqrt_price p)
      (tickLower pos) (tickUpper pos) = Inr (a, b)"
    using calculate_token_amounts_total by blast
  show ?thesis
    unfolding process_position_def Let_def
    by (simp add: assms ab rbind_def capture_baseline_fresh[of "cache st" tid ch, OF assms(1) assms(3)]
        apr_block_def il_block_def)
qed

lemma positions_loop_abort:
  "process_position ch pc st p = Inl e \<Longrightarrow> positions_loop ch pc st (p # ps) = Inl e"
  by (simp add: rbind_def)

lemma enumerate_two: "enumerate_active two_positions 2 = [(100, open_pos), (101, open_pos)]"
proof -
  have l: "liquidity open_pos > 0" by (simp add: open_pos_def)
  show ?thesis
    by (simp add: enumerate_active_def two_positions_def scan_positions_numeral l)
qed

text \<open>
  Claim C2. A failure that concerns one position is meant to skip that position or
  to leave it with defaults, never to end the report. Two runs where it ends the
  report: when the creation event of position 100 is found but the pool cannot be
  read at the creation block, no baseline is stored and the read of
  \<^verbatim>\<open>initial_data_cache[token_id_str]\<close> on line 677 raises \<^verbatim>\<open>KeyError\<close>; when the first
  position processed has a baseline captured in the same report, the
  impermanent-loss block is skipped and line 887 reads \<^verbatim>\<open>perc_to_lower\<close> before any
  assignment. In both runs the exception leaves the loop and position 101 is never
  reported.
\<close>

theorem one_position_aborts_report:
  "enumerate_active (position_at history_gap_wallet) 2 = [(100, open_pos), (101, open_pos)]
   \<and> find_and_display_positions history_gap_wallet = Inl KeyError
   \<and> enumerate_active (position_at fresh_wallet) 2 = [(100, open_pos), (101, open_pos)]
   \<and> find_and_display_positions fresh_wallet = Inl UnboundLocalError"
proof -
  have e1: "enumerate_active (position_at history_gap_wallet) 2 = [(100, open_pos), (101, open_pos)]"
    by (simp add: history_gap_wallet_def enumerate_two)
  have e2: "enumerate_active (position_at fresh_wallet) 2 = [(100, open_pos), (101, open_pos)]"
    by (simp add: fresh_wallet_def enumerate_two)
  have p1: "process_position history_gap_wallet (build_price_cache history_gap_wallet)
        \<lparr>cache = stored history_gap_wallet, total_portfolio_value = 0, perc = None,
         all_positions_data = []\<rparr> (100, open_pos) = Inl KeyError"
    by (rule process_position_history_gap[where p = pool1
          and ci = "\<lparr>block_number = 5, timestamp = 0\<rparr>"])
       (simp_all add: history_gap_wallet_def)
  have p2: "process_position fresh_wallet (build_price_cache fresh_wallet)
        \<lparr>cache = stored fresh_wallet, total_portfolio_value = 0, perc = None,
         all_positions_data = []\<rparr> (100, open_pos) = Inl UnboundLocalError"
    by (rule process_position_unbound[where p = pool1]) (simp_all add: fresh_wallet_def)
  have c1: "connected history_gap_wallet" "balance_of history_gap_wallet = Some 2"
    by (simp_all add: history_gap_wallet_def)
  have c2: "connected fresh_wallet" "balance_of fresh_wallet = Some 2"
    by (simp_all add: fresh_wallet_def)
  have f1: "find_and_display_positions history_gap_wallet = Inl KeyError"
    unfolding find_and_display_positions_unfold[OF c1] e1
    by (simp add: positions_loop_abort[OF p1] rbind_def del: positions_loop.simps)
  have f2: "find_and_display_positions fresh_wallet = Inl UnboundLocalError"
    unfolding find_and_display_positions_unfold[OF c2] e2
    by (simp add: positions_loop_abort[OF p2] rbind_def del: positions_loop.simps)
  from e1 f1 e2 f2 show ?thesis by (intro conjI)
qed

end
